theory Spec2Isabelle
  imports Main
begin

section \<open>Leader election unit: TabManager.ts\<close>

text \<open>
  A tab identity is the string \<^verbatim>\<open>tab_<Date.now()>_<random>\<close> built by
  \<^verbatim>\<open>generateTabId\<close>. The only operation the class performs on it, besides
  comparing two identities, is \<^verbatim>\<open>parseInt(this.tabId.split('_')[1])\<close>, which
  reads the creation time back. The identity is therefore kept as the pair of its
  two variable segments.
\<close>

datatype tab_id = Tab_Id (created: nat) (rand: string)

datatype msg_kind = Ping | Pong | Heartbeat | Focus_request | Claim | Activated | Unknown_kind

text \<open>
  \<^verbatim>\<open>event.data\<close> of a channel message, destructured as \<^verbatim>\<open>{ type, tabId, timestamp }\<close>.
  A field that the sender left out (\<^verbatim>\<open>focus_request\<close> carries neither) is
  \<^verbatim>\<open>undefined\<close>, here \<open>None\<close>.
\<close>

record msg =
  kind :: msg_kind
  m_tabId :: "tab_id option"
  m_timestamp :: "nat option"

text \<open>
  The text stored under \<^verbatim>\<open>xmati_active_tab_id\<close>, classified by what
  \<^verbatim>\<open>const { tabId, timestamp } = JSON.parse(text)\<close> does with it: the empty string
  (falsy, never parsed), a text on which the statement throws, or a value with the
  two fields (each possibly undefined).
\<close>

datatype raw = Raw_Empty | Raw_Garbage | Raw_Record "tab_id option" "nat option"

record tab_manager =
  tabId :: tab_id
  channel :: bool
  heartbeatInterval :: bool
  isActive :: bool
  useLocalStorage :: bool
  receivedPong :: bool
  pingResponses :: "tab_id option set"
  localStorage :: "raw option"
  storageListener :: bool
  pingTimer :: bool
  confirmTimer :: bool
  outbox :: "msg list"
  focusCalls :: nat
  notices :: nat
  closeTimers :: nat
  errorLog :: "string list"

definition TAB_TIMEOUT :: int where
  "TAB_TIMEOUT = 5000"

definition postMessage :: "msg \<Rightarrow> tab_manager \<Rightarrow> tab_manager" where
  "postMessage m p = p\<lparr>outbox := outbox p @ [m]\<rparr>"

definition own_msg :: "msg_kind \<Rightarrow> nat \<Rightarrow> tab_manager \<Rightarrow> msg" where
  "own_msg k t p = \<lparr>kind = k, m_tabId = Some (tabId p), m_timestamp = Some t\<rparr>"

text \<open>\<^verbatim>\<open>timestamp && parseInt(this.tabId.split('_')[1]) < timestamp\<close>\<close>

definition older_than :: "tab_manager \<Rightarrow> nat option \<Rightarrow> bool" where
  "older_than p ts = (case ts of None \<Rightarrow> False | Some t \<Rightarrow> t \<noteq> 0 \<and> created (tabId p) < t)"

text \<open>\<^verbatim>\<open>timestamp && parseInt(this.tabId.split('_')[1]) > timestamp\<close>\<close>

definition younger_than :: "tab_manager \<Rightarrow> nat option \<Rightarrow> bool" where
  "younger_than p ts = (case ts of None \<Rightarrow> False | Some t \<Rightarrow> t \<noteq> 0 \<and> created (tabId p) > t)"

definition requestFocusOnExistingTab :: "tab_manager \<Rightarrow> tab_manager" where
  "requestFocusOnExistingTab p =
     (if channel p
      then postMessage \<lparr>kind = Focus_request, m_tabId = None, m_timestamp = None\<rparr> p
      else p)"

definition showDuplicateTabMessage :: "tab_manager \<Rightarrow> tab_manager" where
  "showDuplicateTabMessage p = p\<lparr>notices := notices p + 1\<rparr>"

definition handleDuplicateTab :: "tab_manager \<Rightarrow> tab_manager" where
  "handleDuplicateTab p =
     (if isActive p then p
      else (let p1 = requestFocusOnExistingTab p;
                p2 = showDuplicateTabMessage p1
            in p2\<lparr>closeTimers := closeTimers p2 + 1\<rparr>))"

text \<open>The handler installed on the channel; \<open>now\<close> is \<^verbatim>\<open>Date.now()\<close>.\<close>

definition onmessage :: "nat \<Rightarrow> msg \<Rightarrow> tab_manager \<Rightarrow> tab_manager" where
  "onmessage now m p =
     (case kind m of
        Ping \<Rightarrow>
          if isActive p \<or> older_than p (m_timestamp m)
          then (if channel p then postMessage (own_msg Pong now p) p else p)
          else p
      | Pong \<Rightarrow>
          if m_tabId m \<noteq> Some (tabId p)
          then (let p1 = p\<lparr>receivedPong := True,
                            pingResponses := insert (m_tabId m) (pingResponses p)\<rparr>
                in if \<not> isActive p1 then handleDuplicateTab p1 else p1)
          else p
      | Heartbeat \<Rightarrow>
          if m_tabId m \<noteq> Some (tabId p) \<and> \<not> isActive p then handleDuplicateTab p else p
      | Focus_request \<Rightarrow>
          if isActive p then p\<lparr>focusCalls := focusCalls p + 1\<rparr> else p
      | Claim \<Rightarrow>
          if m_tabId m \<noteq> Some (tabId p) \<and> younger_than p (m_timestamp m)
          then handleDuplicateTab p
          else p
      | Activated \<Rightarrow> p
      | Unknown_kind \<Rightarrow> p)"

definition updateHeartbeat :: "nat \<Rightarrow> tab_manager \<Rightarrow> tab_manager" where
  "updateHeartbeat now p =
     (if useLocalStorage p
      then p\<lparr>localStorage := Some (Raw_Record (Some (tabId p)) (Some now))\<rparr>
      else if channel p \<and> isActive p then postMessage (own_msg Heartbeat now p) p
      else p)"

definition activateTab :: "nat \<Rightarrow> tab_manager \<Rightarrow> tab_manager" where
  "activateTab now p =
     (let p1 = p\<lparr>isActive := True\<rparr>;
          p2 = updateHeartbeat now p1;
          p3 = (if channel p2 then postMessage (own_msg Activated now p2) p2 else p2)
      in p3\<lparr>heartbeatInterval := True\<rparr>)"

text \<open>The callback of \<^verbatim>\<open>setTimeout(..., PING_TIMEOUT)\<close> in \<^verbatim>\<open>initializeBroadcastChannel\<close>.\<close>

definition ping_timeout :: "nat \<Rightarrow> tab_manager \<Rightarrow> tab_manager" where
  "ping_timeout now p =
     (let p0 = p\<lparr>pingTimer := False\<rparr>
      in if \<not> receivedPong p0 \<and> pingResponses p0 = {} then activateTab now p0
         else if receivedPong p0 then (if \<not> isActive p0 then handleDuplicateTab p0 else p0)
         else p0)"

text \<open>
  The callback of \<^verbatim>\<open>setTimeout(..., 300)\<close> in \<^verbatim>\<open>initializeLocalStorage\<close>. Its
  \<^verbatim>\<open>JSON.parse\<close> runs outside every \<^verbatim>\<open>try\<close>, so a text that does not parse
  ends the callback with the exception (\<open>Inl\<close>).
\<close>

datatype js_error = SyntaxError | TypeError

definition fresh :: "nat \<Rightarrow> nat option \<Rightarrow> bool" where
  "fresh now ts = (case ts of None \<Rightarrow> False | Some t \<Rightarrow> int now - int t < TAB_TIMEOUT)"

definition confirm_timeout :: "nat \<Rightarrow> tab_manager \<Rightarrow> js_error + tab_manager" where
  "confirm_timeout now p =
     (let p0 = p\<lparr>confirmTimer := False\<rparr>
      in case localStorage p0 of
           None \<Rightarrow> Inr (activateTab now p0)
         | Some Raw_Empty \<Rightarrow> Inr (activateTab now p0)
         | Some Raw_Garbage \<Rightarrow> Inl SyntaxError
         | Some (Raw_Record cid cts) \<Rightarrow>
             if fresh now cts \<and> cid \<noteq> Some (tabId p0)
             then Inr (handleDuplicateTab p0)
             else Inr (activateTab now p0))"

definition initializeLocalStorage :: "nat \<Rightarrow> tab_manager \<Rightarrow> tab_manager" where
  "initializeLocalStorage now p =
     (let finish = (\<lambda>q. (activateTab now q)\<lparr>storageListener := True\<rparr>)
      in case localStorage p of
           None \<Rightarrow> finish p
         | Some Raw_Empty \<Rightarrow> finish p
         | Some Raw_Garbage \<Rightarrow>
             finish (p\<lparr>errorLog := errorLog p @ [''Error parsing tab data:'']\<rparr>)
         | Some (Raw_Record eid ets) \<Rightarrow>
             if fresh now ets then p\<lparr>confirmTimer := True\<rparr> else finish p)"

definition initializeBroadcastChannel :: "tab_manager \<Rightarrow> tab_manager" where
  "initializeBroadcastChannel p =
     (let p1 = p\<lparr>channel := True\<rparr>;
          p2 = postMessage (own_msg Ping (created (tabId p1)) p1) p1;
          p3 = postMessage (own_msg Claim (created (tabId p2)) p2) p2
      in p3\<lparr>pingTimer := True\<rparr>)"

text \<open>
  What the constructor finds: the \<^verbatim>\<open>BroadcastChannel\<close> global present, absent, or
  present with a constructor that throws.
\<close>

datatype bc_support = BC_Available | BC_Undefined | BC_Throws

definition new_fields :: "tab_id \<Rightarrow> raw option \<Rightarrow> tab_manager" where
  "new_fields i ls =
     \<lparr>tabId = i, channel = False, heartbeatInterval = False, isActive = False,
      useLocalStorage = False, receivedPong = False, pingResponses = {},
      localStorage = ls, storageListener = False, pingTimer = False, confirmTimer = False,
      outbox = [], focusCalls = 0, notices = 0, closeTimers = 0, errorLog = []\<rparr>"

definition initialize :: "bc_support \<Rightarrow> nat \<Rightarrow> tab_manager \<Rightarrow> tab_manager" where
  "initialize bc now p =
     (case bc of
        BC_Available \<Rightarrow> initializeBroadcastChannel p
      | BC_Undefined \<Rightarrow> initializeLocalStorage now (p\<lparr>useLocalStorage := True\<rparr>)
      | BC_Throws \<Rightarrow>
          initializeLocalStorage now
            (p\<lparr>errorLog := errorLog p @ [''BroadcastChannel failed:''],
               useLocalStorage := True\<rparr>))"


text \<open>
  The \<^verbatim>\<open>storage\<close> listener, on an event for \<^verbatim>\<open>TAB_ID_KEY\<close> (the argument
  \<open>is_key\<close>) whose \<^verbatim>\<open>newValue\<close> is \<open>nv\<close> (\<open>None\<close> for null).
\<close>

definition handleStorageEvent :: "nat \<Rightarrow> bool \<Rightarrow> raw option \<Rightarrow> tab_manager \<Rightarrow> tab_manager" where
  "handleStorageEvent now is_key nv p =
     (if is_key
      then (case nv of
              None \<Rightarrow> p
            | Some Raw_Empty \<Rightarrow> p
            | Some Raw_Garbage \<Rightarrow>
                p\<lparr>errorLog := errorLog p @ [''Error handling storage event:'']\<rparr>
            | Some (Raw_Record tid ts) \<Rightarrow>
                if tid \<noteq> Some (tabId p) \<and> isActive p
                then (if fresh now ts then handleDuplicateTab p else p)
                else p)
      else p)"


subsection \<open>Two peers on one channel\<close>

text \<open>
  A \<^verbatim>\<open>BroadcastChannel\<close> delivers what one peer posts to the other peer, in the
  order posted; nothing orders the two directions against each other. \<open>toA\<close> and
  \<open>toB\<close> hold what is posted and not yet delivered.
\<close>

record net =
  peerA :: tab_manager
  peerB :: tab_manager
  toA :: "msg list"
  toB :: "msg list"

datatype target = To_A | To_B

definition flushA :: "tab_manager \<Rightarrow> net \<Rightarrow> net" where
  "flushA p n = n\<lparr>peerA := p\<lparr>outbox := []\<rparr>, toB := toB n @ outbox p\<rparr>"

definition flushB :: "tab_manager \<Rightarrow> net \<Rightarrow> net" where
  "flushB p n = n\<lparr>peerB := p\<lparr>outbox := []\<rparr>, toA := toA n @ outbox p\<rparr>"

definition start_net :: "tab_id \<Rightarrow> tab_id \<Rightarrow> net" where
  "start_net a b =
     flushB (initialize BC_Available (created b) (new_fields b None))
       (flushA (initialize BC_Available (created a) (new_fields a None))
          \<lparr>peerA = new_fields a None, peerB = new_fields b None, toA = [], toB = []\<rparr>)"

fun deliver :: "nat \<Rightarrow> target \<Rightarrow> net \<Rightarrow> net option" where
  "deliver now To_A n =
     (case toA n of
        [] \<Rightarrow> None
      | m # ms \<Rightarrow> Some (flushA (onmessage now m (peerA n)) (n\<lparr>toA := ms\<rparr>)))"
| "deliver now To_B n =
     (case toB n of
        [] \<Rightarrow> None
      | m # ms \<Rightarrow> Some (flushB (onmessage now m (peerB n)) (n\<lparr>toB := ms\<rparr>)))"

fun exchange :: "(nat \<times> target) list \<Rightarrow> net \<Rightarrow> net option" where
  "exchange [] n = Some n"
| "exchange ((now, t) # es) n =
     (case deliver now t n of None \<Rightarrow> None | Some n' \<Rightarrow> exchange es n')"

definition timeouts :: "nat \<Rightarrow> nat \<Rightarrow> net \<Rightarrow> net" where
  "timeouts nowA nowB n =
     (let n1 = flushA (ping_timeout nowA (peerA n)) n
      in flushB (ping_timeout nowB (peerB n1)) n1)"

text \<open>
  One election between two peers: both construct their manager, the messages are
  delivered in the order \<open>sched\<close> chooses, and once nothing is in flight both
  \<^verbatim>\<open>PING_TIMEOUT\<close> callbacks run. The result is the pair of \<open>isActive\<close> flags;
  \<open>None\<close> when \<open>sched\<close> delivers from an empty queue or leaves a message behind.
\<close>

definition election ::
  "tab_id \<Rightarrow> tab_id \<Rightarrow> (nat \<times> target) list \<Rightarrow> nat \<Rightarrow> nat \<Rightarrow> (bool \<times> bool) option" where
  "election a b sched ta tb =
     (case exchange sched (start_net a b) of
        None \<Rightarrow> None
      | Some n \<Rightarrow>
          if toA n = [] \<and> toB n = []
          then Some (isActive (peerA (timeouts ta tb n)), isActive (peerB (timeouts ta tb n)))
          else None)"

text \<open>
  The same election followed by more deliveries (\<open>later\<close>) after the timeouts, again
  until nothing is in flight.
\<close>

definition election_after ::
  "tab_id \<Rightarrow> tab_id \<Rightarrow> (nat \<times> target) list \<Rightarrow> nat \<Rightarrow> nat \<Rightarrow> (nat \<times> target) list
     \<Rightarrow> (bool \<times> bool) option" where
  "election_after a b sched ta tb later =
     (case exchange sched (start_net a b) of
        None \<Rightarrow> None
      | Some n \<Rightarrow>
          if toA n = [] \<and> toB n = []
          then (case exchange later (timeouts ta tb n) of
                  None \<Rightarrow> None
                | Some n' \<Rightarrow>
                    if toA n' = [] \<and> toB n' = []
                    then Some (isActive (peerA n'), isActive (peerB n'))
                    else None)
          else None)"

text \<open>
  The invariant of the exchange, for the peer \<open>me\<close> with inbox \<open>q_me\<close>: nobody is
  active before the timeouts, a pong reaches \<open>me\<close> only from an older peer, and when
  the other peer is older its pong is received, in flight, or still owed (the ping of
  \<open>me\<close> is in flight).
\<close>

definition half_inv :: "tab_id \<Rightarrow> tab_id \<Rightarrow> tab_manager \<Rightarrow> msg list \<Rightarrow> msg list \<Rightarrow> bool" where
  "half_inv me other p q_me q_other \<longleftrightarrow>
     tabId p = me \<and> \<not> isActive p \<and> channel p \<and> outbox p = [] \<and>
     (receivedPong p \<longrightarrow> created other < created me) \<and>
     (pingResponses p \<noteq> {} \<longrightarrow> receivedPong p) \<and>
     (\<forall>m \<in> set q_me. kind m = Pong \<longrightarrow> m_tabId m = Some other \<and> created other < created me) \<and>
     (\<forall>m \<in> set q_other. kind m = Ping \<longrightarrow> m_timestamp m = Some (created me)) \<and>
     (created other < created me \<longrightarrow>
        receivedPong p \<or> (\<exists>m \<in> set q_me. kind m = Pong) \<or> (\<exists>m \<in> set q_other. kind m = Ping))"

definition net_inv :: "tab_id \<Rightarrow> tab_id \<Rightarrow> net \<Rightarrow> bool" where
  "net_inv a b n \<longleftrightarrow>
     half_inv a b (peerA n) (toA n) (toB n) \<and> half_inv b a (peerB n) (toB n) (toA n)"


section \<open>Connection session manager: WebSocketWrapper\<close>

text \<open>
  A JSON value as far as the component looks at it: it tests values for truthiness,
  compares them with string literals and passes them on. \<open>JObject\<close> stands for
  every object and array.
\<close>

datatype json = JUndefined | JNull | JBool bool | JNum int | JStr string | JObject

fun truthy :: "json \<Rightarrow> bool" where
  "truthy JUndefined = False"
| "truthy JNull = False"
| "truthy (JBool b) = b"
| "truthy (JNum n) = (n \<noteq> 0)"
| "truthy (JStr s) = (s \<noteq> [])"
| "truthy JObject = True"

text \<open>
  The text of an inbound frame, classified by what \<^verbatim>\<open>JSON.parse(event.data)\<close>
  and the property reads after it do: the parse throws, the value is \<^verbatim>\<open>null\<close>
  (reading \<^verbatim>\<open>data.type\<close> throws), or the value has the properties \<^verbatim>\<open>type\<close>,
  \<^verbatim>\<open>message\<close> and \<^verbatim>\<open>alert\<close>, each \<open>JUndefined\<close> when absent.
\<close>

datatype payload = Not_Json | Json_Null | Json_Value (d_type: json) (d_message: json) (d_alert: json)

datatype notice =
    Alert_duplicate_session
  | Alert_logged_out json
  | Alert_ws_error json
  | Alert_unknown_type json

datatype frame = Register_child string | Payload string

datatype stored = Blocked_record bool | Maintenance_record json

datatype ready_state = CONNECTING | OPEN | CLOSING | CLOSED

datatype conn_status = St_connecting | St_connected | St_disconnected | St_error

text \<open>
  The props and hook results of one render. A function defined during a render
  (\<^verbatim>\<open>connect\<close>, the socket handlers inside it) closes over the values of that
  render; \<open>url_ok\<close> tells whether \<^verbatim>\<open>new WebSocket(url)\<close> returns or throws.
\<close>

record props =
  isActiveTab :: bool
  enabled :: bool
  userId :: "string option"
  url_ok :: bool
  reconnectInterval :: nat
  reconnectAttempts :: nat

record socket =
  readyState :: ready_state
  env :: props
  sent :: "frame list"

record timer =
  t_id :: nat
  t_delay :: nat
  t_env :: props

text \<open>
  The refs and state of the component, every \<^verbatim>\<open>WebSocket\<close> it has built and every
  pending \<^verbatim>\<open>setTimeout\<close>. \<open>secureStore\<close> is what \<^verbatim>\<open>secureSessionStorage\<close> holds.
  The fields \<open>connectionStatus\<close>, \<open>lastMessage\<close>, \<open>gaveUp\<close> and the three callback
  counters belong to the variant with the retry ceiling only; the screens, the store,
  \<open>alerts\<close> and \<open>logouts\<close> to the tab-gated variant only.
  \<open>debugEnabled\<close> is what \<^verbatim>\<open>isDebugEnabled()\<close> of the debug utility returns
  (\<^verbatim>\<open>window.DEBUG_WEBSOCKET\<close> or the \<^verbatim>\<open>DEBUG_WEBSOCKET\<close> entry of localStorage, both
  unset by default); no event of the component writes it. \<open>gaveUp\<close> counts the
  give-up warnings that \<^verbatim>\<open>debug.warn\<close> has printed.
\<close>

record wsw =
  cur :: props
  mounted :: bool
  socketRef :: "nat option"
  sockets :: "socket list"
  reconnectCountRef :: nat
  reconnectTimeoutRef :: "nat option"
  isConnectingRef :: bool
  hasRegisteredRef :: bool
  isConnected :: bool
  showBlockedScreen :: json
  showMaintenanceScreen :: json
  timers :: "timer list"
  nextTimer :: nat
  secureStore :: "string \<Rightarrow> stored option"
  alerts :: "notice list"
  logouts :: nat
  onConnectCalls :: nat
  connectionStatus :: conn_status
  lastMessage :: "payload option"
  gaveUp :: nat
  onMessageCalls :: nat
  onDisconnectCalls :: nat
  onErrorCalls :: nat
  debugEnabled :: bool

definition ref_open :: "wsw \<Rightarrow> bool" where
  "ref_open s =
     (case socketRef s of
        None \<Rightarrow> False
      | Some i \<Rightarrow> i < length (sockets s) \<and> readyState (sockets s ! i) = OPEN)"

text \<open>\<^verbatim>\<open>ws.close()\<close>: a socket that is connecting or open starts closing; otherwise nothing.\<close>

definition ws_close :: "nat \<Rightarrow> wsw \<Rightarrow> wsw" where
  "ws_close i s =
     (if i < length (sockets s) \<and>
         (readyState (sockets s ! i) = CONNECTING \<or> readyState (sockets s ! i) = OPEN)
      then s\<lparr>sockets := (sockets s)[i := (sockets s ! i)\<lparr>readyState := CLOSING\<rparr>]\<rparr>
      else s)"

definition ws_send :: "nat \<Rightarrow> frame \<Rightarrow> wsw \<Rightarrow> wsw" where
  "ws_send i f s =
     (if i < length (sockets s)
      then s\<lparr>sockets := (sockets s)[i := (sockets s ! i)\<lparr>sent := sent (sockets s ! i) @ [f]\<rparr>]\<rparr>
      else s)"

definition set_timeout :: "nat \<Rightarrow> props \<Rightarrow> wsw \<Rightarrow> wsw" where
  "set_timeout d e s =
     s\<lparr>timers := timers s @ [\<lparr>t_id = nextTimer s, t_delay = d, t_env = e\<rparr>],
       nextTimer := nextTimer s + 1\<rparr>"

definition clear_timeout :: "nat \<Rightarrow> wsw \<Rightarrow> wsw" where
  "clear_timeout k s = s\<lparr>timers := filter (\<lambda>t. t_id t \<noteq> k) (timers s)\<rparr>"

definition identity_known :: "props \<Rightarrow> bool" where
  "identity_known e = (case userId e of None \<Rightarrow> False | Some u \<Rightarrow> u \<noteq> [])"

subsection \<open>The tab-gated variant (WebSocketWrapper/index.tsx)\<close>

definition sendRegistration :: "string \<Rightarrow> wsw \<Rightarrow> wsw" where
  "sendRegistration u s =
     (if ref_open s \<and> u \<noteq> [] \<and> \<not> hasRegisteredRef s
      then (case socketRef s of
              None \<Rightarrow> s
            | Some i \<Rightarrow> (ws_send i (Register_child (u @ ''_studio'')) s)\<lparr>hasRegisteredRef := True\<rparr>)
      else s)"

definition close_current :: "wsw \<Rightarrow> wsw" where
  "close_current s =
     (case socketRef s of
        None \<Rightarrow> s
      | Some i \<Rightarrow> (ws_close i s)\<lparr>socketRef := None\<rparr>)"

definition new_WebSocket :: "props \<Rightarrow> wsw \<Rightarrow> wsw" where
  "new_WebSocket e s =
     s\<lparr>sockets := sockets s @ [\<lparr>readyState = CONNECTING, env = e, sent = []\<rparr>],
       socketRef := Some (length (sockets s))\<rparr>"

definition connect :: "props \<Rightarrow> wsw \<Rightarrow> wsw" where
  "connect e s =
     (if \<not> isActiveTab e then s
      else if \<not> enabled e \<or> isConnectingRef s \<or> ref_open s then s
      else (let s1 = close_current s;
                s2 = s1\<lparr>isConnectingRef := True\<rparr>
            in if url_ok e then new_WebSocket e s2
               else s2\<lparr>isConnectingRef := False\<rparr>))"

definition onLogout :: "wsw \<Rightarrow> wsw" where
  "onLogout s = s\<lparr>logouts := logouts s + 1\<rparr>"

definition onBlockStatus :: "json \<Rightarrow> wsw \<Rightarrow> wsw" where
  "onBlockStatus status s =
     s\<lparr>showBlockedScreen := JBool (status = JStr ''Blocked''),
       secureStore := (secureStore s)(''accountBlocked'' \<mapsto> Blocked_record (status = JStr ''Blocked''))\<rparr>"

definition onMaintenanceUpdate :: "json \<Rightarrow> wsw \<Rightarrow> wsw" where
  "onMaintenanceUpdate status s =
     s\<lparr>showMaintenanceScreen := status,
       secureStore := (secureStore s)(''maintenance'' \<mapsto> Maintenance_record status)\<rparr>"

definition js_alert :: "notice \<Rightarrow> wsw \<Rightarrow> wsw" where
  "js_alert a s = s\<lparr>alerts := alerts s @ [a]\<rparr>"

definition or_default :: "json \<Rightarrow> string \<Rightarrow> json" where
  "or_default v d = (if truthy v then v else JStr d)"

definition ws_onopen :: "props \<Rightarrow> wsw \<Rightarrow> wsw" where
  "ws_onopen e s =
     (let s1 = onMaintenanceUpdate (JBool False) s;
          s2 = s1\<lparr>isConnected := True, reconnectCountRef := 0, isConnectingRef := False\<rparr>;
          s3 = (case userId e of
                  None \<Rightarrow> s2
                | Some u \<Rightarrow> if u \<noteq> [] then sendRegistration u s2 else s2)
      in s3\<lparr>onConnectCalls := onConnectCalls s3 + 1\<rparr>)"

definition ws_onmessage :: "payload \<Rightarrow> wsw \<Rightarrow> js_error + wsw" where
  "ws_onmessage d s =
     (case d of
        Not_Json \<Rightarrow> Inl SyntaxError
      | Json_Null \<Rightarrow> Inl TypeError
      | Json_Value ty msg al \<Rightarrow>
          if ty = JStr ''REGISTER_SUCCESS'' then Inr s
          else if ty = JStr ''DUPLICATE_SESSION''
            then Inr (onLogout (js_alert Alert_duplicate_session s))
          else if ty = JStr ''FORCE_LOGOUT''
            then Inr (onLogout
                   (if truthy al
                    then js_alert (Alert_logged_out
                           (or_default msg ''You have been logged out by the server.'')) s
                    else s))
          else if ty = JStr ''BLOCK_STATUS'' then Inr (onBlockStatus msg s)
          else if ty = JStr ''MAINTENANCE_STATUS'' then Inr (onMaintenanceUpdate msg s)
          else if ty = JStr ''error''
            then Inr (onLogout (js_alert (Alert_ws_error (or_default msg ''Unknown error'')) s))
          else Inr (onLogout (js_alert (Alert_unknown_type ty) s)))"

definition ws_onerror :: "wsw \<Rightarrow> wsw" where
  "ws_onerror s = onMaintenanceUpdate (JBool True) (s\<lparr>isConnectingRef := False\<rparr>)"

definition ws_onclose :: "props \<Rightarrow> wsw \<Rightarrow> wsw" where
  "ws_onclose e s =
     set_timeout 1000 e
       (s\<lparr>isConnected := False, isConnectingRef := False, hasRegisteredRef := False\<rparr>)"

text \<open>The first effect (dependencies: \<^verbatim>\<open>[isActiveTab]\<close>): its body and its cleanup.\<close>

definition effect_connect :: "props \<Rightarrow> wsw \<Rightarrow> wsw" where
  "effect_connect e s = (if enabled e then connect e s else s)"

definition effect_cleanup :: "wsw \<Rightarrow> wsw" where
  "effect_cleanup s =
     (let s1 = (case reconnectTimeoutRef s of
                  None \<Rightarrow> s
                | Some k \<Rightarrow> (clear_timeout k s)\<lparr>reconnectTimeoutRef := None\<rparr>);
          s2 = close_current s1
      in s2\<lparr>isConnectingRef := False, reconnectCountRef := 0\<rparr>)"

text \<open>The second effect (dependencies: \<^verbatim>\<open>[isActiveTab, enabled]\<close>).\<close>

definition effect_tab_status :: "props \<Rightarrow> wsw \<Rightarrow> wsw" where
  "effect_tab_status e s =
     (if isActiveTab e \<and> enabled e
      then (if \<not> ref_open s then connect e s else s)
      else if \<not> isActiveTab e
      then (case socketRef s of
              None \<Rightarrow> s
            | Some i \<Rightarrow>
                (ws_close i s)\<lparr>socketRef := None, isConnected := False, hasRegisteredRef := False\<rparr>)
      else s)"

definition sendMessage :: "string \<Rightarrow> wsw \<Rightarrow> wsw" where
  "sendMessage m s =
     (case socketRef s of
        None \<Rightarrow> s
      | Some i \<Rightarrow> if isConnected s \<and> ref_open s then ws_send i (Payload m) s else s)"

definition blocked_flag :: "stored option \<Rightarrow> json" where
  "blocked_flag v =
     (case v of
        None \<Rightarrow> JBool False
      | Some (Blocked_record b) \<Rightarrow> JBool b
      | Some (Maintenance_record j) \<Rightarrow> JUndefined)"

definition maintenance_flag :: "stored option \<Rightarrow> json" where
  "maintenance_flag v =
     (case v of
        None \<Rightarrow> JBool False
      | Some (Blocked_record b) \<Rightarrow> JUndefined
      | Some (Maintenance_record j) \<Rightarrow> j)"

definition first_render :: "(string \<Rightarrow> stored option) \<Rightarrow> props \<Rightarrow> wsw" where
  "first_render st p =
     \<lparr>cur = p, mounted = True, socketRef = None, sockets = [], reconnectCountRef = 0,
      reconnectTimeoutRef = None, isConnectingRef = False, hasRegisteredRef = False,
      isConnected = False,
      showBlockedScreen = blocked_flag (st ''accountBlocked''),
      showMaintenanceScreen = maintenance_flag (st ''maintenance''),
      timers = [], nextTimer = 0, secureStore = st, alerts = [], logouts = 0,
      onConnectCalls = 0, connectionStatus = St_disconnected, lastMessage = None,
      gaveUp = 0, onMessageCalls = 0, onDisconnectCalls = 0, onErrorCalls = 0,
      debugEnabled = False\<rparr>"

definition mount :: "(string \<Rightarrow> stored option) \<Rightarrow> props \<Rightarrow> wsw" where
  "mount st p = effect_tab_status p (effect_connect p (first_render st p))"

text \<open>
  What can happen to the mounted component: a new render (a prop or the tab hook
  changed), the unmount, the events of a socket, a timer running out, a child calling
  \<^verbatim>\<open>sendMessage\<close>. A failed connection fires \<^verbatim>\<open>error\<close> and then \<^verbatim>\<open>close\<close>;
  both find the socket \<open>CLOSED\<close>. An event that cannot happen in the state gives
  \<open>None\<close>. An exception thrown by a handler ends that handler and leaves the state
  as the handler had it; \<^verbatim>\<open>ws.onmessage\<close> throws before it writes anything.
\<close>

datatype event =
    Render props
  | Unmount
  | Sock_open nat
  | Sock_message nat payload
  | Sock_fail nat
  | Sock_close nat
  | Timer_fire nat
  | Send_message string

definition set_ready :: "nat \<Rightarrow> ready_state \<Rightarrow> wsw \<Rightarrow> wsw" where
  "set_ready i r s = s\<lparr>sockets := (sockets s)[i := (sockets s ! i)\<lparr>readyState := r\<rparr>]\<rparr>"

definition sock_is :: "nat \<Rightarrow> (ready_state \<Rightarrow> bool) \<Rightarrow> wsw \<Rightarrow> bool" where
  "sock_is i P s \<longleftrightarrow> i < length (sockets s) \<and> P (readyState (sockets s ! i))"

definition sock_env :: "nat \<Rightarrow> wsw \<Rightarrow> props" where
  "sock_env i s = env (sockets s ! i)"

definition render :: "props \<Rightarrow> wsw \<Rightarrow> wsw" where
  "render p s =
     (let tab_changed = (isActiveTab p \<noteq> isActiveTab (cur s));
          enabled_changed = (enabled p \<noteq> enabled (cur s));
          s0 = s\<lparr>cur := p\<rparr>;
          s1 = (if tab_changed then effect_connect p (effect_cleanup s0) else s0)
      in if tab_changed \<or> enabled_changed then effect_tab_status p s1 else s1)"

fun step :: "event \<Rightarrow> wsw \<Rightarrow> wsw option" where
  "step (Render p) s = (if mounted s then Some (render p s) else None)"
| "step Unmount s = (if mounted s then Some ((effect_cleanup s)\<lparr>mounted := False\<rparr>) else None)"
| "step (Sock_open i) s =
     (if sock_is i (\<lambda>r. r = CONNECTING) s
      then Some (ws_onopen (sock_env i s) (set_ready i OPEN s))
      else None)"
| "step (Sock_message i d) s =
     (if sock_is i (\<lambda>r. r = OPEN) s
      then Some (case ws_onmessage d s of Inl err \<Rightarrow> s | Inr s' \<Rightarrow> s')
      else None)"
| "step (Sock_fail i) s =
     (if sock_is i (\<lambda>r. r \<noteq> CLOSED) s
      then Some (ws_onclose (sock_env i s) (ws_onerror (set_ready i CLOSED s)))
      else None)"
| "step (Sock_close i) s =
     (if sock_is i (\<lambda>r. r \<noteq> CLOSED) s
      then Some (ws_onclose (sock_env i s) (set_ready i CLOSED s))
      else None)"
| "step (Timer_fire k) s =
     (case filter (\<lambda>t. t_id t = k) (timers s) of
        [] \<Rightarrow> None
      | t # ts \<Rightarrow> Some (connect (t_env t) (clear_timeout k s)))"
| "step (Send_message m) s = (if mounted s then Some (sendMessage m s) else None)"

fun run :: "event list \<Rightarrow> wsw \<Rightarrow> wsw option" where
  "run [] s = Some s"
| "run (ev # evs) s = (case step ev s of None \<Rightarrow> None | Some s' \<Rightarrow> run evs s')"

text \<open>The connection state of the design, read off the socket the component holds.\<close>

datatype conn_state = Idle | Connecting | Open | Closed

definition conn_state :: "wsw \<Rightarrow> conn_state" where
  "conn_state s =
     (case socketRef s of
        None \<Rightarrow> if sockets s = [] then Idle else Closed
      | Some i \<Rightarrow>
          (case readyState (sockets s ! i) of
             CONNECTING \<Rightarrow> Connecting
           | OPEN \<Rightarrow> Open
           | CLOSING \<Rightarrow> Closed
           | CLOSED \<Rightarrow> Closed))"

definition is_register :: "frame \<Rightarrow> bool" where
  "is_register f = (case f of Register_child u \<Rightarrow> True | Payload m \<Rightarrow> False)"

definition registrations :: "nat \<Rightarrow> wsw \<Rightarrow> nat" where
  "registrations i s = length (filter is_register (sent (sockets s ! i)))"


subsection \<open>The variant with the retry ceiling (the second WebSocketWrapper source)\<close>

text \<open>
  This file has no tab gate, no screens and no frame dispatch. Its only effect has no
  dependencies, so every function that ever runs closes over the props of the first
  render. \<^verbatim>\<open>sendRegistration\<close>, \<^verbatim>\<open>sendMessage\<close> and the cleanup are the same
  code as above.
\<close>

definition connect0 :: "props \<Rightarrow> wsw \<Rightarrow> wsw" where
  "connect0 e s =
     (if \<not> enabled e \<or> isConnectingRef s \<or> ref_open s then s
      else (let s1 = close_current s;
                s2 = s1\<lparr>isConnectingRef := True, connectionStatus := St_connecting\<rparr>
            in if url_ok e then new_WebSocket e s2
               else s2\<lparr>connectionStatus := St_error, isConnectingRef := False\<rparr>))"

definition ws_onopen0 :: "props \<Rightarrow> wsw \<Rightarrow> wsw" where
  "ws_onopen0 e s =
     (let s2 = s\<lparr>isConnected := True, connectionStatus := St_connected,
                 reconnectCountRef := 0, isConnectingRef := False\<rparr>;
          s3 = (case userId e of
                  None \<Rightarrow> s2
                | Some u \<Rightarrow> if u \<noteq> [] then sendRegistration u s2 else s2)
      in s3\<lparr>onConnectCalls := onConnectCalls s3 + 1\<rparr>)"

definition ws_onmessage0 :: "payload \<Rightarrow> wsw \<Rightarrow> wsw" where
  "ws_onmessage0 d s = s\<lparr>lastMessage := Some d, onMessageCalls := onMessageCalls s + 1\<rparr>"

definition ws_onerror0 :: "wsw \<Rightarrow> wsw" where
  "ws_onerror0 s =
     s\<lparr>connectionStatus := St_error, isConnectingRef := False, onErrorCalls := onErrorCalls s + 1\<rparr>"

definition ws_onclose0 :: "props \<Rightarrow> wsw \<Rightarrow> wsw" where
  "ws_onclose0 e s =
     (let s1 = s\<lparr>isConnected := False, connectionStatus := St_disconnected,
                 isConnectingRef := False, hasRegisteredRef := False,
                 onDisconnectCalls := onDisconnectCalls s + 1\<rparr>
      in if enabled e \<and> reconnectCountRef s1 < reconnectAttempts e
         then (set_timeout (reconnectInterval e) e s1)\<lparr>reconnectTimeoutRef := Some (nextTimer s1)\<rparr>
         else if reconnectCountRef s1 \<ge> reconnectAttempts e
         then (if debugEnabled s1 then s1\<lparr>gaveUp := gaveUp s1 + 1\<rparr> else s1)
         else s1)"

text \<open>The callback of the reconnection timer.\<close>

definition reconnect0 :: "props \<Rightarrow> wsw \<Rightarrow> wsw" where
  "reconnect0 e s = connect0 e (s\<lparr>reconnectCountRef := reconnectCountRef s + 1\<rparr>)"

definition mount0 :: "(string \<Rightarrow> stored option) \<Rightarrow> props \<Rightarrow> wsw" where
  "mount0 st p = (if enabled p then connect0 p (first_render st p) else first_render st p)"

fun step0 :: "event \<Rightarrow> wsw \<Rightarrow> wsw option" where
  "step0 (Render p) s = (if mounted s then Some (s\<lparr>cur := p\<rparr>) else None)"
| "step0 Unmount s = (if mounted s then Some ((effect_cleanup s)\<lparr>mounted := False\<rparr>) else None)"
| "step0 (Sock_open i) s =
     (if sock_is i (\<lambda>r. r = CONNECTING) s
      then Some (ws_onopen0 (sock_env i s) (set_ready i OPEN s))
      else None)"
| "step0 (Sock_message i d) s =
     (if sock_is i (\<lambda>r. r = OPEN) s then Some (ws_onmessage0 d s) else None)"
| "step0 (Sock_fail i) s =
     (if sock_is i (\<lambda>r. r \<noteq> CLOSED) s
      then Some (ws_onclose0 (sock_env i s) (ws_onerror0 (set_ready i CLOSED s)))
      else None)"
| "step0 (Sock_close i) s =
     (if sock_is i (\<lambda>r. r \<noteq> CLOSED) s
      then Some (ws_onclose0 (sock_env i s) (set_ready i CLOSED s))
      else None)"
| "step0 (Timer_fire k) s =
     (case filter (\<lambda>t. t_id t = k) (timers s) of
        [] \<Rightarrow> None
      | t # ts \<Rightarrow> Some (reconnect0 (t_env t) (clear_timeout k s)))"
| "step0 (Send_message m) s = (if mounted s then Some (sendMessage m s) else None)"

fun run0 :: "event list \<Rightarrow> wsw \<Rightarrow> wsw option" where
  "run0 [] s = Some s"
| "run0 (ev # evs) s = (case step0 ev s of None \<Rightarrow> None | Some s' \<Rightarrow> run0 evs s')"


subsection \<open>Observations and invariants used below\<close>


text \<open>
  The props that \<^verbatim>\<open>App\<close> passes, with the tab hook reporting a follower (its
  value at the first render) and a leader.
\<close>

definition p_follower :: props where
  "p_follower = \<lparr>isActiveTab = False, enabled = True, userId = Some ''u1'', url_ok = True,
     reconnectInterval = 3000, reconnectAttempts = 5\<rparr>"

definition p_leader :: props where
  "p_leader = p_follower\<lparr>isActiveTab := True\<rparr>"

text \<open>
  What is looked at after a run: mounted, the leadership flag of the latest render,
  the connection state, the delays of the pending timers, the registration flag, the
  number of sockets built so far.
\<close>

definition observe :: "wsw \<Rightarrow> bool \<times> bool \<times> conn_state \<times> nat list \<times> bool \<times> nat" where
  "observe s =
     (mounted s, isActiveTab (cur s), conn_state s, map t_delay (timers s),
      hasRegisteredRef s, length (sockets s))"

text \<open>
  Only the socket the component holds can be connecting or open; a connecting socket
  has sent nothing; no socket carries more than one registration frame.
\<close>

definition reg_inv :: "wsw \<Rightarrow> bool" where
  "reg_inv s \<longleftrightarrow>
     (\<forall>i. socketRef s = Some i \<longrightarrow> i < length (sockets s)) \<and>
     (\<forall>i < length (sockets s).
        (socketRef s \<noteq> Some i \<longrightarrow>
           readyState (sockets s ! i) \<noteq> CONNECTING \<and> readyState (sockets s ! i) \<noteq> OPEN) \<and>
        (readyState (sockets s ! i) = CONNECTING \<longrightarrow> registrations i s = 0) \<and>
        registrations i s \<le> 1)"

text \<open>The events that disconnect: a socket closes, or a render finds the tab inactive.\<close>

definition is_disconnect :: "event \<Rightarrow> bool" where
  "is_disconnect ev =
     (case ev of
        Sock_fail i \<Rightarrow> True
      | Sock_close i \<Rightarrow> True
      | Render p \<Rightarrow> \<not> isActiveTab p
      | _ \<Rightarrow> False)"

text \<open>A run of failures: no connection attempt succeeds and the component stays mounted.\<close>

definition failing :: "event \<Rightarrow> bool" where
  "failing ev = (case ev of Sock_open i \<Rightarrow> False | Unmount \<Rightarrow> False | _ \<Rightarrow> True)"

definition all_closed :: "wsw \<Rightarrow> bool" where
  "all_closed s \<longleftrightarrow> (\<forall>i < length (sockets s). readyState (sockets s ! i) = CLOSED)"

text \<open>
  The invariant of a run of failures in the variant with the ceiling: at most one
  timer is pending, and only while every socket is closed; the attempts made and the
  one pending never exceed the ceiling; each reconnection built at most one socket.
\<close>

definition ceiling_inv :: "props \<Rightarrow> wsw \<Rightarrow> bool" where
  "ceiling_inv p s \<longleftrightarrow>
     (\<forall>i < length (sockets s). env (sockets s ! i) = p \<and> readyState (sockets s ! i) \<noteq> OPEN) \<and>
     (\<forall>t \<in> set (timers s). t_env t = p \<and> t_delay t = reconnectInterval p) \<and>
     length (timers s) \<le> 1 \<and>
     reconnectCountRef s + length (timers s) \<le> reconnectAttempts p \<and>
     length (sockets s) \<le> reconnectCountRef s + 1 \<and>
     (\<forall>i < length (sockets s). readyState (sockets s ! i) \<noteq> CLOSED \<longrightarrow>
        socketRef s = Some i \<and> timers s = []) \<and>
     (isConnectingRef s \<longrightarrow> \<not> all_closed s) \<and>
     (sockets s \<noteq> [] \<longrightarrow> enabled p \<and> url_ok p) \<and>
     (timers s \<noteq> [] \<longrightarrow> sockets s \<noteq> []) \<and>
     (sockets s \<noteq> [] \<and> timers s = [] \<and> all_closed s \<longrightarrow>
        (debugEnabled s \<longrightarrow> gaveUp s > 0) \<and> reconnectCountRef s = reconnectAttempts p) \<and>
     (\<forall>i. socketRef s = Some i \<longrightarrow> i < length (sockets s)) \<and>
     (\<not> debugEnabled s \<longrightarrow> gaveUp s = 0)"


subsection \<open>The component under its tab hook\<close>










section \<open>Persisted flags: secureStorage.ts and crypto-utils.js\<close>

text \<open>
  The CryptoJS library and the JSON built-ins are not part of the repository. They are
  parameters of the model: \<open>aes_encrypt t k\<close> is
  \<^verbatim>\<open>CryptoJS.AES.encrypt(t, k).toString()\<close>, \<open>aes_decrypt c k\<close> is
  \<^verbatim>\<open>CryptoJS.AES.decrypt(c, k).toString(CryptoJS.enc.Utf8)\<close> with \<open>None\<close> when
  that throws, and \<open>json_stringify\<close> and \<open>json_parse\<close> give \<open>None\<close> when the
  built-in throws.
\<close>

record platform =
  sha256 :: "string \<Rightarrow> string"
  aes_encrypt :: "string \<Rightarrow> string \<Rightarrow> string"
  aes_decrypt :: "string \<Rightarrow> string \<Rightarrow> string option"
  json_stringify :: "json \<Rightarrow> string option"
  json_parse :: "string \<Rightarrow> json option"

datatype crypto_error = Failed_to_encrypt | Failed_to_decrypt

text \<open>\<open>fp\<close> is the browser fingerprint that \<^verbatim>\<open>getSessionKey\<close> joins and hashes.\<close>

definition getSessionKey :: "platform \<Rightarrow> string \<Rightarrow> string" where
  "getSessionKey pf fp = sha256 pf fp"

text \<open>\<^verbatim>\<open>customKey || getSessionKey()\<close>\<close>

definition key_or_session :: "platform \<Rightarrow> string \<Rightarrow> string option \<Rightarrow> string" where
  "key_or_session pf fp customKey =
     (case customKey of
        None \<Rightarrow> getSessionKey pf fp
      | Some k \<Rightarrow> if k = [] then getSessionKey pf fp else k)"

definition encryptData ::
  "platform \<Rightarrow> string \<Rightarrow> json \<Rightarrow> string option \<Rightarrow> crypto_error + string option" where
  "encryptData pf fp data customKey =
     (if data = JNull \<or> data = JUndefined then Inr None
      else (case json_stringify pf data of
              None \<Rightarrow> Inl Failed_to_encrypt
            | Some t \<Rightarrow> Inr (Some (aes_encrypt pf t (key_or_session pf fp customKey)))))"

definition decryptData ::
  "platform \<Rightarrow> string \<Rightarrow> string option \<Rightarrow> string option \<Rightarrow> crypto_error + json" where
  "decryptData pf fp encryptedData customKey =
     (case encryptedData of
        None \<Rightarrow> Inr JNull
      | Some c \<Rightarrow>
          if c = [] then Inr JNull
          else (case aes_decrypt pf c (key_or_session pf fp customKey) of
                  None \<Rightarrow> Inl Failed_to_decrypt
                | Some d \<Rightarrow>
                    if d = [] then Inl Failed_to_decrypt
                    else (case json_parse pf d of
                            None \<Rightarrow> Inl Failed_to_decrypt
                          | Some v \<Rightarrow> Inr v)))"

text \<open>
  \<^verbatim>\<open>SecureSessionStorage\<close> and \<^verbatim>\<open>SecureLocalStorage\<close> are the same code over
  \<^verbatim>\<open>sessionStorage\<close> and \<^verbatim>\<open>localStorage\<close>; the storage is the map \<open>st\<close>.
  \<^verbatim>\<open>setItem\<close> rethrows what \<^verbatim>\<open>encryptData\<close> throws; \<^verbatim>\<open>getItem\<close> catches,
  removes the entry and returns null.
\<close>

definition setItem ::
  "platform \<Rightarrow> string \<Rightarrow> string \<Rightarrow> string \<Rightarrow> (string \<Rightarrow> string option)
     \<Rightarrow> crypto_error + (string \<Rightarrow> string option)" where
  "setItem pf fp key v st =
     (case encryptData pf fp (JStr v) None of
        Inl err \<Rightarrow> Inl err
      | Inr None \<Rightarrow> Inr st
      | Inr (Some c) \<Rightarrow> if c \<noteq> [] then Inr (st(key \<mapsto> c)) else Inr st)"

definition getItem ::
  "platform \<Rightarrow> string \<Rightarrow> string \<Rightarrow> (string \<Rightarrow> string option)
     \<Rightarrow> json \<times> (string \<Rightarrow> string option)" where
  "getItem pf fp key st =
     (case st key of
        None \<Rightarrow> (JNull, st)
      | Some c \<Rightarrow>
          if c = [] then (JNull, st)
          else (case decryptData pf fp (Some c) None of
                  Inr v \<Rightarrow> (v, st)
                | Inl err \<Rightarrow> (JNull, st(key := None))))"

definition removeItem :: "string \<Rightarrow> (string \<Rightarrow> string option) \<Rightarrow> (string \<Rightarrow> string option)" where
  "removeItem key st = st(key := None)"

definition hasItem :: "string \<Rightarrow> (string \<Rightarrow> string option) \<Rightarrow> bool" where
  "hasItem key st = (st key \<noteq> None)"

text \<open>
  A small platform that meets what the round trip asks of the library: a cipher that
  prepends a mark and a JSON codec for strings that does the same.
\<close>

definition toy_platform :: platform where
  "toy_platform =
     \<lparr>sha256 = (\<lambda>s. s),
      aes_encrypt = (\<lambda>t k. CHR ''U'' # t),
      aes_decrypt = (\<lambda>c k. case c of [] \<Rightarrow> None | x # t \<Rightarrow> if x = CHR ''U'' then Some t else None),
      json_stringify = (\<lambda>j. case j of JStr s \<Rightarrow> Some (CHR ''s'' # s) | _ \<Rightarrow> None),
      json_parse = (\<lambda>t. case t of [] \<Rightarrow> None | x # s \<Rightarrow> if x = CHR ''s'' then Some (JStr s) else None)\<rparr>"


section \<open>Properties of the leader election unit\<close>



text \<open>
  C1 (as amended). \<open>isActive\<close> is never reset: a peer that is active stays active on
  every channel message, heartbeats and older claims of another peer included, and
  runs no duplicate-tab handling; a peer that is not active answers a heartbeat or a
  strictly older claim of another peer with the duplicate-tab handling (the notice and
  the delayed close), its flag staying false.
\<close>

theorem active_peer_keeps_leadership:
  "(isActive p \<longrightarrow>
      isActive (onmessage now m p) \<and>
      notices (onmessage now m p) = notices p \<and>
      closeTimers (onmessage now m p) = closeTimers p) \<and>
   (\<not> isActive p \<and> m_tabId m \<noteq> Some (tabId p) \<and>
      (kind m = Heartbeat \<or> kind m = Claim \<and> younger_than p (m_timestamp m)) \<longrightarrow>
      \<not> isActive (onmessage now m p) \<and>
      notices (onmessage now m p) = notices p + 1 \<and>
      closeTimers (onmessage now m p) = closeTimers p + 1)"
  by (auto simp add: onmessage_def handleDuplicateTab_def requestFocusOnExistingTab_def
      showDuplicateTabMessage_def postMessage_def Let_def split: msg_kind.splits)

theorem active_peer_keeps_leadership_witness:
  "isActive ((new_fields (Tab_Id 1000 ''x'') None)\<lparr>channel := True, isActive := True\<rparr>) \<and>
   isActive (onmessage 3000
     \<lparr>kind = Claim, m_tabId = Some (Tab_Id 900 ''w''), m_timestamp = Some 900\<rparr>
     ((new_fields (Tab_Id 1000 ''x'') None)\<lparr>channel := True, isActive := True\<rparr>)) \<and>
   \<not> isActive ((new_fields (Tab_Id 2000 ''y'') None)\<lparr>channel := True\<rparr>) \<and>
   notices (onmessage 3000
     \<lparr>kind = Heartbeat, m_tabId = Some (Tab_Id 1000 ''x''), m_timestamp = Some 2900\<rparr>
     ((new_fields (Tab_Id 2000 ''y'') None)\<lparr>channel := True\<rparr>)) = 1"
  using active_peer_keeps_leadership
    [where p = "(new_fields (Tab_Id 1000 ''x'') None)\<lparr>channel := True, isActive := True\<rparr>"
       and now = 3000
       and m = "\<lparr>kind = Claim, m_tabId = Some (Tab_Id 900 ''w''), m_timestamp = Some 900\<rparr>"]
    active_peer_keeps_leadership
    [where p = "(new_fields (Tab_Id 2000 ''y'') None)\<lparr>channel := True\<rparr>"
       and now = 3000
       and m = "\<lparr>kind = Heartbeat, m_tabId = Some (Tab_Id 1000 ''x''), m_timestamp = Some 2900\<rparr>"]
  by (simp add: new_fields_def)

text \<open>
  The claim C1 as stated fails: an active peer that receives the heartbeat of another
  peer is still active afterwards.
\<close>

theorem active_peer_yields_counterexample:
  "isActive ((new_fields (Tab_Id 1000 ''x'') None)\<lparr>channel := True, isActive := True\<rparr>) \<and>
   m_tabId \<lparr>kind = Heartbeat, m_tabId = Some (Tab_Id 2000 ''y''), m_timestamp = Some 2900\<rparr>
     \<noteq> Some (tabId ((new_fields (Tab_Id 1000 ''x'') None)\<lparr>channel := True, isActive := True\<rparr>)) \<and>
   isActive (onmessage 3000
     \<lparr>kind = Heartbeat, m_tabId = Some (Tab_Id 2000 ''y''), m_timestamp = Some 2900\<rparr>
     ((new_fields (Tab_Id 1000 ''x'') None)\<lparr>channel := True, isActive := True\<rparr>))"
  by (simp add: new_fields_def onmessage_def)

subsection \<open>The election between two peers\<close>

lemma net_inv_start: "net_inv a b (start_net a b)"
  by (simp add: net_inv_def half_inv_def start_net_def flushA_def flushB_def initialize_def
      initializeBroadcastChannel_def new_fields_def postMessage_def own_msg_def Let_def)

text \<open>What a peer that is not active does with one message.\<close>

lemma onmessage_follower:
  assumes "\<not> isActive p" "channel p" "outbox p = []"
  shows "tabId (onmessage now m p) = tabId p"
    and "\<not> isActive (onmessage now m p)"
    and "channel (onmessage now m p)"
    and "receivedPong (onmessage now m p) =
           (receivedPong p \<or> kind m = Pong \<and> m_tabId m \<noteq> Some (tabId p))"
    and "pingResponses p \<noteq> {} \<longrightarrow> receivedPong p \<Longrightarrow>
           pingResponses (onmessage now m p) \<noteq> {} \<longrightarrow> receivedPong (onmessage now m p)"
    and "\<forall>x \<in> set (outbox (onmessage now m p)). kind x \<noteq> Ping \<and>
           (kind x = Pong \<longrightarrow> m_tabId x = Some (tabId p) \<and> kind m = Ping \<and> older_than p (m_timestamp m))"
    and "kind m = Ping \<Longrightarrow> older_than p (m_timestamp m) \<Longrightarrow>
           \<exists>x \<in> set (outbox (onmessage now m p)). kind x = Pong"
  using assms
  by (auto simp add: onmessage_def handleDuplicateTab_def requestFocusOnExistingTab_def
      showDuplicateTabMessage_def postMessage_def own_msg_def Let_def split: msg_kind.splits)


lemma half_inv_step_me:
  assumes ab: "a \<noteq> b" and inv: "half_inv a b pa (m # qa) qb" "half_inv b a pb qb (m # qa)"
  shows "half_inv a b ((onmessage now m pa)\<lparr>outbox := []\<rparr>) qa (qb @ outbox (onmessage now m pa))"
proof -
  let ?p = "onmessage now m pa"
  from inv(1) have f: "\<not> isActive pa" "channel pa" "outbox pa = []" "tabId pa = a"
    by (simp_all add: half_inv_def)
  note om = onmessage_follower[OF f(1-3), where now=now and m=m]
  from inv(1) have i5: "receivedPong pa \<longrightarrow> created b < created a"
    and i6: "pingResponses pa \<noteq> {} \<longrightarrow> receivedPong pa"
    and i7: "\<forall>x \<in> set (m # qa). kind x = Pong \<longrightarrow> m_tabId x = Some b \<and> created b < created a"
    and i8: "\<forall>x \<in> set qb. kind x = Ping \<longrightarrow> m_timestamp x = Some (created a)"
    and i9: "created b < created a \<longrightarrow>
        receivedPong pa \<or> (\<exists>x \<in> set (m # qa). kind x = Pong) \<or> (\<exists>x \<in> set qb. kind x = Ping)"
    by (simp_all add: half_inv_def)
  have c5: "receivedPong ?p \<longrightarrow> created b < created a"
    using i5 i7 om(4) by auto
  have c6: "pingResponses ?p \<noteq> {} \<longrightarrow> receivedPong ?p"
    using om(5)[OF i6] .
  have c7: "\<forall>x \<in> set qa. kind x = Pong \<longrightarrow> m_tabId x = Some b \<and> created b < created a"
    using i7 by simp
  have c8: "\<forall>x \<in> set (qb @ outbox ?p). kind x = Ping \<longrightarrow> m_timestamp x = Some (created a)"
    using i8 om(6) by auto
  have c9: "created b < created a \<longrightarrow>
        receivedPong ?p \<or> (\<exists>x \<in> set qa. kind x = Pong) \<or> (\<exists>x \<in> set (qb @ outbox ?p). kind x = Ping)"
  proof
    assume lt: "created b < created a"
    with i9 consider "receivedPong pa" | "kind m = Pong" | "\<exists>x \<in> set qa. kind x = Pong"
      | "\<exists>x \<in> set qb. kind x = Ping" by auto
    then show "receivedPong ?p \<or> (\<exists>x \<in> set qa. kind x = Pong) \<or> (\<exists>x \<in> set (qb @ outbox ?p). kind x = Ping)"
    proof cases
      case 1 then show ?thesis using om(4) by simp
    next
      case 2
      with i7 have "m_tabId m = Some b" by simp
      with ab f(4) 2 show ?thesis using om(4) by auto
    next
      case 3 then show ?thesis by simp
    next
      case 4 then show ?thesis by auto
    qed
  qed
  show ?thesis
    unfolding half_inv_def using om(1-3) f(4) c5 c6 c7 c8 c9 by simp
qed

lemma half_inv_step_other:
  assumes ab: "a \<noteq> b" and inv: "half_inv a b pa (m # qa) qb" "half_inv b a pb qb (m # qa)"
  shows "half_inv b a pb (qb @ outbox (onmessage now m pa)) qa"
proof -
  let ?p = "onmessage now m pa"
  from inv(1) have f: "\<not> isActive pa" "channel pa" "outbox pa = []" "tabId pa = a"
    by (simp_all add: half_inv_def)
  note om = onmessage_follower[OF f(1-3), where now=now and m=m]
  from inv(2) have g: "tabId pb = b" "\<not> isActive pb" "channel pb" "outbox pb = []"
    and i5: "receivedPong pb \<longrightarrow> created a < created b"
    and i6: "pingResponses pb \<noteq> {} \<longrightarrow> receivedPong pb"
    and i7: "\<forall>x \<in> set qb. kind x = Pong \<longrightarrow> m_tabId x = Some a \<and> created a < created b"
    and i8: "\<forall>x \<in> set (m # qa). kind x = Ping \<longrightarrow> m_timestamp x = Some (created b)"
    and i9: "created a < created b \<longrightarrow>
        receivedPong pb \<or> (\<exists>x \<in> set qb. kind x = Pong) \<or> (\<exists>x \<in> set (m # qa). kind x = Ping)"
    by (simp_all add: half_inv_def)
  have pong_out: "\<forall>x \<in> set (outbox ?p). kind x = Pong \<longrightarrow> m_tabId x = Some a \<and> created a < created b"
  proof (intro ballI impI)
    fix x assume x: "x \<in> set (outbox ?p)" "kind x = Pong"
    with om(6) have "m_tabId x = Some a" "kind m = Ping" "older_than pa (m_timestamp m)"
      using f(4) by auto
    moreover from this i8 have "m_timestamp m = Some (created b)" by simp
    ultimately show "m_tabId x = Some a \<and> created a < created b"
      using f(4) by (simp add: older_than_def)
  qed
  have c7: "\<forall>x \<in> set (qb @ outbox ?p). kind x = Pong \<longrightarrow> m_tabId x = Some a \<and> created a < created b"
    using i7 pong_out by auto
  have c8: "\<forall>x \<in> set qa. kind x = Ping \<longrightarrow> m_timestamp x = Some (created b)"
    using i8 by simp
  have c9: "created a < created b \<longrightarrow>
        receivedPong pb \<or> (\<exists>x \<in> set (qb @ outbox ?p). kind x = Pong) \<or> (\<exists>x \<in> set qa. kind x = Ping)"
  proof
    assume lt: "created a < created b"
    with i9 consider "receivedPong pb" | "\<exists>x \<in> set qb. kind x = Pong" | "kind m = Ping"
      | "\<exists>x \<in> set qa. kind x = Ping" by auto
    then show "receivedPong pb \<or> (\<exists>x \<in> set (qb @ outbox ?p). kind x = Pong) \<or> (\<exists>x \<in> set qa. kind x = Ping)"
    proof cases
      case 1 then show ?thesis by simp
    next
      case 2 then show ?thesis by auto
    next
      case 3
      with i8 have "m_timestamp m = Some (created b)" by simp
      with lt f(4) have "older_than pa (m_timestamp m)" by (simp add: older_than_def)
      from om(7)[OF 3 this] show ?thesis by auto
    next
      case 4 then show ?thesis by simp
    qed
  qed
  show ?thesis
    unfolding half_inv_def using g i5 i6 c7 c8 c9 by simp
qed

lemma deliverA_inv:
  assumes ab: "a \<noteq> b" and inv: "half_inv a b pa (m # qa) qb" "half_inv b a pb qb (m # qa)"
  shows "half_inv a b ((onmessage now m pa)\<lparr>outbox := []\<rparr>) qa (qb @ outbox (onmessage now m pa))"
    and "half_inv b a pb (qb @ outbox (onmessage now m pa)) qa"
  using half_inv_step_me[OF assms] half_inv_step_other[OF assms] by blast+

lemma deliver_inv:
  assumes "a \<noteq> b" "net_inv a b n" "deliver now t n = Some n'"
  shows "net_inv a b n'"
proof (cases t)
  case To_A
  with assms(3) obtain m ms where q: "toA n = m # ms"
    and n': "n' = flushA (onmessage now m (peerA n)) (n\<lparr>toA := ms\<rparr>)"
    by (auto split: list.splits)
  from assms(2) q have h: "half_inv a b (peerA n) (m # ms) (toB n)" "half_inv b a (peerB n) (toB n) (m # ms)"
    by (simp_all add: net_inv_def)
  from deliverA_inv[OF assms(1) h, of now] show ?thesis
    by (simp add: n' net_inv_def flushA_def)
next
  case To_B
  with assms(3) obtain m ms where q: "toB n = m # ms"
    and n': "n' = flushB (onmessage now m (peerB n)) (n\<lparr>toB := ms\<rparr>)"
    by (auto split: list.splits)
  from assms(2) q have h: "half_inv b a (peerB n) (m # ms) (toA n)" "half_inv a b (peerA n) (toA n) (m # ms)"
    by (simp_all add: net_inv_def)
  from assms(1) have ba: "b \<noteq> a" by simp
  from deliverA_inv[OF ba h, of now] show ?thesis
    by (simp add: n' net_inv_def flushB_def)
qed

lemma exchange_inv:
  "a \<noteq> b \<Longrightarrow> net_inv a b n \<Longrightarrow> exchange sched n = Some n' \<Longrightarrow> net_inv a b n'"
proof (induction sched arbitrary: n)
  case Nil
  then show ?case by simp
next
  case (Cons e es)
  obtain now t where e: "e = (now, t)" by (cases e)
  from Cons.prems(3) e obtain n1 where d: "deliver now t n = Some n1" and r: "exchange es n1 = Some n'"
    by (auto split: option.splits)
  from deliver_inv[OF Cons.prems(1,2) d] Cons.IH[OF Cons.prems(1) _ r] show ?case by blast
qed

lemma ping_timeout_quiescent:
  assumes "half_inv me other p [] []"
  shows "isActive (ping_timeout now p) = (created me \<le> created other)"
  using assms
  by (auto simp add: half_inv_def ping_timeout_def activateTab_def updateHeartbeat_def
      postMessage_def handleDuplicateTab_def requestFocusOnExistingTab_def
      showDuplicateTabMessage_def Let_def)

lemma oldest_peer_self_promotes:
  assumes "a \<noteq> b" and "exchange sched (start_net a b) = Some n"
    and "toA n = []" and "toB n = []"
  shows "isActive (peerA (timeouts ta tb n)) = (created a \<le> created b) \<and>
         isActive (peerB (timeouts ta tb n)) = (created b \<le> created a)"
proof -
  from exchange_inv[OF assms(1) net_inv_start assms(2)] assms(3,4)
  have h: "half_inv a b (peerA n) [] []" "half_inv b a (peerB n) [] []"
    by (simp_all add: net_inv_def)
  from ping_timeout_quiescent[OF h(1), of ta] ping_timeout_quiescent[OF h(2), of tb]
  show ?thesis
    by (simp add: timeouts_def flushA_def flushB_def Let_def)
qed


lemmas election_eval =
  election_def start_net_def flushA_def flushB_def initialize_def timeouts_def
  initializeBroadcastChannel_def new_fields_def postMessage_def own_msg_def Let_def
  onmessage_def older_than_def younger_than_def ping_timeout_def activateTab_def
  updateHeartbeat_def handleDuplicateTab_def requestFocusOnExistingTab_def
  showDuplicateTabMessage_def

lemma strictly_older_wins:
  assumes "a \<noteq> b" and "created a < created b" and "election a b sched ta tb = Some (la, lb)"
  shows "la \<and> \<not> lb"
proof -
  from assms(3) obtain n where n: "exchange sched (start_net a b) = Some n" "toA n = []" "toB n = []"
    and l: "la = isActive (peerA (timeouts ta tb n))" "lb = isActive (peerB (timeouts ta tb n))"
    by (auto simp add: election_def split: option.splits if_splits)
  from oldest_peer_self_promotes[OF assms(1) n] l assms(2) show ?thesis by simp
qed

text \<open>
  C2, on the tie. Two tabs whose identities carry the same creation millisecond
  exchange their pings and claims before the timeouts. Nobody answers with a pong and
  nobody yields, so both timeouts self-promote: both peers are active where the claim
  has neither. The first heartbeats and activation notices, once delivered, change
  nothing, since an active peer ignores them: the double leadership stays.
\<close>

theorem equal_timestamps_double_leadership:
  "election (Tab_Id 1000 ''x'') (Tab_Id 1000 ''y'')
     [(1001, To_A), (1001, To_B), (1002, To_A), (1002, To_B)] 2000 2000 = Some (True, True) \<and>
   election_after (Tab_Id 1000 ''x'') (Tab_Id 1000 ''y'')
     [(1001, To_A), (1001, To_B), (1002, To_A), (1002, To_B)] 2000 2000
     [(2001, To_A), (2001, To_B), (2002, To_A), (2002, To_B)] = Some (True, True)"
  by (simp add: election_eval election_after_def)

section \<open>Properties of the connection session manager\<close>

lemmas wsw_eval =
  observe_def mount_def first_render_def effect_connect_def effect_tab_status_def effect_cleanup_def
  connect_def close_current_def new_WebSocket_def ref_open_def ws_close_def ws_send_def
  set_timeout_def clear_timeout_def sendRegistration_def ws_onopen_def ws_onerror_def
  ws_onclose_def onMaintenanceUpdate_def render_def set_ready_def sock_is_def sock_env_def
  conn_state_def p_follower_def p_leader_def blocked_flag_def maintenance_flag_def Let_def
  sendMessage_def connect0_def ws_onopen0_def ws_onerror0_def ws_onclose0_def reconnect0_def
  mount0_def registrations_def is_register_def identity_known_def

subsection \<open>Registration\<close>

lemma reg_inv_first: "reg_inv (first_render st p)"
  by (simp add: reg_inv_def first_render_def)

lemma reg_inv_close_current: "reg_inv s \<Longrightarrow> reg_inv (close_current s)"
  by (auto simp add: reg_inv_def close_current_def ws_close_def registrations_def nth_list_update
      split: option.splits)

lemma reg_inv_new: "reg_inv s \<Longrightarrow> socketRef s = None \<Longrightarrow> reg_inv (new_WebSocket e s)"
  by (auto simp add: reg_inv_def new_WebSocket_def registrations_def nth_append)

lemma close_current_ref: "socketRef (close_current s) = None"
  by (simp add: close_current_def split: option.splits)

lemma reg_inv_flag: "reg_inv (s\<lparr>isConnectingRef := b\<rparr>) = reg_inv s"
  by (simp add: reg_inv_def registrations_def)

lemma reg_inv_connect: "reg_inv s \<Longrightarrow> reg_inv (connect e s)"
  by (simp add: connect_def Let_def reg_inv_new reg_inv_close_current close_current_ref reg_inv_flag)

lemma reg_inv_cleanup: "reg_inv s \<Longrightarrow> reg_inv (effect_cleanup s)"
proof -
  assume a: "reg_inv s"
  have t: "\<And>k. reg_inv ((clear_timeout k s)\<lparr>reconnectTimeoutRef := None\<rparr>)"
    using a by (simp add: reg_inv_def clear_timeout_def registrations_def)
  have f: "\<And>s. reg_inv (s\<lparr>isConnectingRef := False, reconnectCountRef := 0\<rparr>) = reg_inv s"
    by (simp add: reg_inv_def registrations_def)
  show ?thesis
    using a t by (simp add: effect_cleanup_def Let_def f reg_inv_close_current split: option.splits)
qed

lemma reg_inv_tab_status: "reg_inv s \<Longrightarrow> reg_inv (effect_tab_status e s)"
  by (auto simp add: effect_tab_status_def reg_inv_connect split: option.splits)
     (auto simp add: reg_inv_def ws_close_def registrations_def nth_list_update)

lemma reg_inv_render: "reg_inv s \<Longrightarrow> reg_inv (render p s)"
proof -
  assume a: "reg_inv s"
  then have c: "reg_inv (s\<lparr>cur := p\<rparr>)" by (simp add: reg_inv_def registrations_def)
  show ?thesis
    by (simp add: render_def Let_def effect_connect_def reg_inv_tab_status reg_inv_connect
        reg_inv_cleanup c)
qed


lemma reg_inv_mount: "reg_inv (mount st p)"
  by (simp add: mount_def effect_connect_def reg_inv_tab_status reg_inv_connect reg_inv_first)

lemma reg_inv_onclose: "reg_inv (ws_onclose e s) = reg_inv s"
  by (simp add: reg_inv_def ws_onclose_def set_timeout_def registrations_def)

lemma reg_inv_onerror: "reg_inv (ws_onerror s) = reg_inv s"
  by (simp add: reg_inv_def ws_onerror_def onMaintenanceUpdate_def registrations_def)

lemma reg_inv_closed: "reg_inv s \<Longrightarrow> i < length (sockets s) \<Longrightarrow> reg_inv (set_ready i CLOSED s)"
  by (auto simp add: reg_inv_def set_ready_def registrations_def nth_list_update)

lemma reg_inv_onmessage: "reg_inv s \<Longrightarrow> ws_onmessage d s = Inr s' \<Longrightarrow> reg_inv s'"
  by (auto simp add: reg_inv_def ws_onmessage_def registrations_def onLogout_def js_alert_def
      onBlockStatus_def onMaintenanceUpdate_def split: payload.splits if_splits)

lemma reg_inv_sendMessage: "reg_inv s \<Longrightarrow> reg_inv (sendMessage m s)"
  by (auto simp add: reg_inv_def sendMessage_def ws_send_def registrations_def nth_list_update
      is_register_def split: option.splits)

lemma reg_inv_timers: "reg_inv (clear_timeout k s) = reg_inv s"
  by (simp add: reg_inv_def clear_timeout_def registrations_def)

text \<open>The registrations on socket i after it opened.\<close>

lemma onopen_registrations:
  assumes "reg_inv s" "sock_is i (\<lambda>r. r = CONNECTING) s"
  shows "reg_inv (ws_onopen (sock_env i s) (set_ready i OPEN s))"
    and "registrations i (ws_onopen (sock_env i s) (set_ready i OPEN s)) =
           (if identity_known (sock_env i s) \<and> \<not> hasRegisteredRef s then 1 else 0)"
proof -
  from assms have i: "i < length (sockets s)" "readyState (sockets s ! i) = CONNECTING"
    by (simp_all add: sock_is_def)
  with assms(1) have r: "socketRef s = Some i" "registrations i s = 0"
    by (auto simp add: reg_inv_def)
  show "reg_inv (ws_onopen (sock_env i s) (set_ready i OPEN s))"
    using assms(1) i r
    by (auto simp add: reg_inv_def ws_onopen_def set_ready_def sock_env_def onMaintenanceUpdate_def
        sendRegistration_def ref_open_def ws_send_def registrations_def nth_list_update
        is_register_def Let_def split: option.splits)
  show "registrations i (ws_onopen (sock_env i s) (set_ready i OPEN s)) =
           (if identity_known (sock_env i s) \<and> \<not> hasRegisteredRef s then 1 else 0)"
    using i r
    by (auto simp add: ws_onopen_def set_ready_def sock_env_def onMaintenanceUpdate_def
        sendRegistration_def ref_open_def ws_send_def registrations_def nth_list_update
        is_register_def identity_known_def Let_def split: option.splits)
qed

lemma reg_inv_mounted: "reg_inv (s\<lparr>mounted := b\<rparr>) = reg_inv s"
  by (simp add: reg_inv_def registrations_def)

lemma reg_inv_step:
  assumes "reg_inv s" "step ev s = Some s'"
  shows "reg_inv s'"
proof (cases ev)
  case (Render p)
  with assms(2) have "s' = render p s" by (simp split: if_splits)
  with assms(1) show ?thesis by (simp add: reg_inv_render)
next
  case Unmount
  with assms(2) have "s' = (effect_cleanup s)\<lparr>mounted := False\<rparr>" by (simp split: if_splits)
  with assms(1) show ?thesis by (simp add: reg_inv_mounted reg_inv_cleanup)
next
  case (Sock_open i)
  with assms(2) have "sock_is i (\<lambda>r. r = CONNECTING) s"
    and "s' = ws_onopen (sock_env i s) (set_ready i OPEN s)" by (simp_all split: if_splits)
  with assms(1) show ?thesis by (simp add: onopen_registrations(1))
next
  case (Sock_message i d)
  with assms(2) have "s' = (case ws_onmessage d s of Inl err \<Rightarrow> s | Inr s' \<Rightarrow> s')"
    by (simp split: if_splits)
  with assms(1) show ?thesis
    by (cases "ws_onmessage d s") (simp_all add: reg_inv_onmessage)
next
  case (Sock_fail i)
  with assms(2) have "i < length (sockets s)"
    and "s' = ws_onclose (sock_env i s) (ws_onerror (set_ready i CLOSED s))"
    by (simp_all add: sock_is_def split: if_splits)
  with assms(1) show ?thesis by (simp add: reg_inv_onclose reg_inv_onerror reg_inv_closed)
next
  case (Sock_close i)
  with assms(2) have "i < length (sockets s)"
    and "s' = ws_onclose (sock_env i s) (set_ready i CLOSED s)"
    by (simp_all add: sock_is_def split: if_splits)
  with assms(1) show ?thesis by (simp add: reg_inv_onclose reg_inv_closed)
next
  case (Timer_fire k)
  show ?thesis
  proof (cases "filter (\<lambda>t. t_id t = k) (timers s)")
    case Nil
    with assms(2) Timer_fire show ?thesis by simp
  next
    case (Cons t ts)
    with assms(2) Timer_fire have "s' = connect (t_env t) (clear_timeout k s)" by simp
    with assms(1) show ?thesis by (simp add: reg_inv_connect reg_inv_timers)
  qed
next
  case (Send_message m)
  with assms(2) have "s' = sendMessage m s" by (simp split: if_splits)
  with assms(1) show ?thesis by (simp add: reg_inv_sendMessage)
qed

lemma reg_inv_run: "reg_inv s \<Longrightarrow> run evs s = Some s' \<Longrightarrow> reg_inv s'"
  by (induction evs arbitrary: s) (auto split: option.splits dest: reg_inv_step)

lemma connect_flag: "hasRegisteredRef (connect e s) = hasRegisteredRef s"
  by (simp add: connect_def close_current_def ws_close_def new_WebSocket_def Let_def
      split: option.splits)

lemma cleanup_flag: "hasRegisteredRef (effect_cleanup s) = hasRegisteredRef s"
  by (simp add: effect_cleanup_def close_current_def ws_close_def clear_timeout_def Let_def
      split: option.splits)

lemma flag_kept:
  assumes "hasRegisteredRef s" "step ev s = Some s'" "\<not> is_disconnect ev"
  shows "hasRegisteredRef s'"
proof (cases ev)
  case (Render p)
  with assms show ?thesis
    by (auto simp add: is_disconnect_def render_def Let_def effect_connect_def
        effect_tab_status_def connect_flag cleanup_flag split: if_splits)
next
  case Unmount
  with assms show ?thesis by (auto simp add: cleanup_flag split: if_splits)
next
  case (Sock_open i)
  with assms show ?thesis
    by (auto simp add: ws_onopen_def set_ready_def onMaintenanceUpdate_def sendRegistration_def
        ws_send_def Let_def split: if_splits option.splits)
next
  case (Sock_message i d)
  with assms show ?thesis
    by (auto simp add: ws_onmessage_def onLogout_def js_alert_def onBlockStatus_def
        onMaintenanceUpdate_def split: if_splits payload.splits sum.splits)
next
  case (Timer_fire k)
  with assms show ?thesis
    by (auto simp add: connect_flag clear_timeout_def split: list.splits)
next
  case (Send_message m)
  with assms show ?thesis
    by (auto simp add: sendMessage_def ws_send_def split: if_splits option.splits)
qed (use assms in \<open>auto simp add: is_disconnect_def\<close>)

lemma identity_only_render:
  assumes "isActiveTab p = isActiveTab (cur s)" "enabled p = enabled (cur s)"
  shows "render p s = s\<lparr>cur := p\<rparr>"
  using assms by (simp add: render_def)

text \<open>
  C3 (as amended). In every reachable state no socket carries more than one
  registration frame. The frame is sent by the open handler: a socket that opens while
  the guarding flag is clear and the identity captured by the render that started the
  attempt is non-empty has exactly one afterwards, and one that opens with an empty
  captured identity has none. A later render that changes nothing but the identity
  sends nothing. The flag is cleared by disconnect events only.
\<close>

theorem registration_at_most_once:
  assumes "run evs (mount st p) = Some s"
  shows "(\<forall>i < length (sockets s). registrations i s \<le> 1) \<and>
         (\<forall>i s'. step (Sock_open i) s = Some s' \<longrightarrow>
            (identity_known (sock_env i s) \<and> \<not> hasRegisteredRef s \<longrightarrow> registrations i s' = 1) \<and>
            (\<not> identity_known (sock_env i s) \<longrightarrow> registrations i s' = 0)) \<and>
         (\<forall>q s'. step (Render q) s = Some s' \<and> isActiveTab q = isActiveTab (cur s) \<and>
            enabled q = enabled (cur s) \<longrightarrow> sockets s' = sockets s) \<and>
         (\<forall>ev s'. hasRegisteredRef s \<and> step ev s = Some s' \<and> \<not> is_disconnect ev \<longrightarrow>
            hasRegisteredRef s')"
proof -
  from reg_inv_run[OF reg_inv_mount assms] have inv: "reg_inv s" .
  then have a: "\<forall>i < length (sockets s). registrations i s \<le> 1"
    by (simp add: reg_inv_def)
  have b: "\<forall>i s'. step (Sock_open i) s = Some s' \<longrightarrow>
            (identity_known (sock_env i s) \<and> \<not> hasRegisteredRef s \<longrightarrow> registrations i s' = 1) \<and>
            (\<not> identity_known (sock_env i s) \<longrightarrow> registrations i s' = 0)"
    using onopen_registrations(2)[OF inv] by (auto split: if_splits)
  have c: "\<forall>q s'. step (Render q) s = Some s' \<and> isActiveTab q = isActiveTab (cur s) \<and>
            enabled q = enabled (cur s) \<longrightarrow> sockets s' = sockets s"
    by (auto simp add: identity_only_render split: if_splits)
  have d: "\<forall>ev s'. hasRegisteredRef s \<and> step ev s = Some s' \<and> \<not> is_disconnect ev \<longrightarrow>
            hasRegisteredRef s'"
    using flag_kept by blast
  from a b c d show ?thesis by blast
qed


theorem registration_at_most_once_witness:
  "\<exists>s s'. run [Render p_leader] (mount Map.empty p_follower) = Some s \<and>
      step (Sock_open 0) s = Some s' \<and> identity_known (sock_env 0 s) \<and>
      \<not> hasRegisteredRef s \<and> registrations 0 s' = 1"
proof -
  have "run [Render p_leader] (mount Map.empty p_follower) \<noteq> None"
    by (simp add: wsw_eval)
  then obtain s where s: "run [Render p_leader] (mount Map.empty p_follower) = Some s" by blast
  have "map_option (\<lambda>s. step (Sock_open 0) s \<noteq> None \<and> identity_known (sock_env 0 s) \<and> \<not> hasRegisteredRef s)
          (run [Render p_leader] (mount Map.empty p_follower)) = Some True"
    by (simp add: wsw_eval)
  with s have f: "step (Sock_open 0) s \<noteq> None" "identity_known (sock_env 0 s)" "\<not> hasRegisteredRef s"
    by simp_all
  then obtain s' where s': "step (Sock_open 0) s = Some s'" by blast
  from registration_at_most_once[OF s] s' f have "registrations 0 s' = 1" by blast
  with s s' f show ?thesis by blast
qed

text \<open>
  The claim C3 as stated fails: the connection opens before the identity is known,
  the identity arrives with the next render, and the open connection has carried no
  registration frame.
\<close>

theorem late_identity_counterexample:
  "map_option observe
     (run [Render (p_leader\<lparr>userId := None\<rparr>), Sock_open 0, Render p_leader]
        (mount Map.empty (p_follower\<lparr>userId := None\<rparr>)))
     = Some (True, True, Open, [], False, 1) \<and>
   map_option (identity_known \<circ> cur)
     (run [Render (p_leader\<lparr>userId := None\<rparr>), Sock_open 0, Render p_leader]
        (mount Map.empty (p_follower\<lparr>userId := None\<rparr>)))
     = Some True \<and>
   map_option (registrations 0)
     (run [Render (p_leader\<lparr>userId := None\<rparr>), Sock_open 0, Render p_leader]
        (mount Map.empty (p_follower\<lparr>userId := None\<rparr>)))
     = Some 0"
  by (simp add: wsw_eval)

subsection \<open>The retry ceiling\<close>

lemma ceiling_inv_mount0: "ceiling_inv p ((mount0 st p)\<lparr>debugEnabled := d\<rparr>)"
  by (auto simp add: ceiling_inv_def mount0_def connect0_def first_render_def ref_open_def
      close_current_def new_WebSocket_def all_closed_def Let_def)

lemma onclose0_proj:
  "sockets (ws_onclose0 e s) = sockets s"
  "socketRef (ws_onclose0 e s) = socketRef s"
  "reconnectCountRef (ws_onclose0 e s) = reconnectCountRef s"
  "isConnectingRef (ws_onclose0 e s) = False"
  "timers (ws_onclose0 e s) =
     (if enabled e \<and> reconnectCountRef s < reconnectAttempts e
      then timers s @ [\<lparr>t_id = nextTimer s, t_delay = reconnectInterval e, t_env = e\<rparr>]
      else timers s)"
  "debugEnabled (ws_onclose0 e s) = debugEnabled s"
  "gaveUp (ws_onclose0 e s) =
     (if enabled e \<and> reconnectCountRef s < reconnectAttempts e then gaveUp s
      else if reconnectAttempts e \<le> reconnectCountRef s \<and> debugEnabled s then gaveUp s + 1
      else gaveUp s)"
  by (simp_all add: ws_onclose0_def set_timeout_def Let_def)

lemma onerror0_proj:
  "sockets (ws_onerror0 s) = sockets s"
  "socketRef (ws_onerror0 s) = socketRef s"
  "reconnectCountRef (ws_onerror0 s) = reconnectCountRef s"
  "timers (ws_onerror0 s) = timers s"
  "gaveUp (ws_onerror0 s) = gaveUp s"
  "debugEnabled (ws_onerror0 s) = debugEnabled s"
  by (simp_all add: ws_onerror0_def)

lemma set_ready_proj:
  "sockets (set_ready i r s) = (sockets s)[i := (sockets s ! i)\<lparr>readyState := r\<rparr>]"
  "socketRef (set_ready i r s) = socketRef s"
  "reconnectCountRef (set_ready i r s) = reconnectCountRef s"
  "timers (set_ready i r s) = timers s"
  "gaveUp (set_ready i r s) = gaveUp s"
  "debugEnabled (set_ready i r s) = debugEnabled s"
  by (simp_all add: set_ready_def)


lemma ceiling_invD:
  assumes "ceiling_inv p s"
  shows "i < length (sockets s) \<Longrightarrow> env (sockets s ! i) = p"
    and "i < length (sockets s) \<Longrightarrow> readyState (sockets s ! i) \<noteq> OPEN"
    and "t \<in> set (timers s) \<Longrightarrow> t_env t = p"
    and "t \<in> set (timers s) \<Longrightarrow> t_delay t = reconnectInterval p"
    and "length (timers s) \<le> 1"
    and "reconnectCountRef s + length (timers s) \<le> reconnectAttempts p"
    and "length (sockets s) \<le> reconnectCountRef s + 1"
    and "i < length (sockets s) \<Longrightarrow> readyState (sockets s ! i) \<noteq> CLOSED \<Longrightarrow> socketRef s = Some i"
    and "i < length (sockets s) \<Longrightarrow> readyState (sockets s ! i) \<noteq> CLOSED \<Longrightarrow> timers s = []"
    and "isConnectingRef s \<Longrightarrow> \<not> all_closed s"
    and "sockets s \<noteq> [] \<Longrightarrow> enabled p"
    and "sockets s \<noteq> [] \<Longrightarrow> url_ok p"
    and "timers s \<noteq> [] \<Longrightarrow> sockets s \<noteq> []"
    and "sockets s \<noteq> [] \<Longrightarrow> timers s = [] \<Longrightarrow> all_closed s \<Longrightarrow> debugEnabled s \<Longrightarrow>
           gaveUp s > 0"
    and "sockets s \<noteq> [] \<Longrightarrow> timers s = [] \<Longrightarrow> all_closed s \<Longrightarrow>
           reconnectCountRef s = reconnectAttempts p"
    and "socketRef s = Some i \<Longrightarrow> i < length (sockets s)"
    and "\<not> debugEnabled s \<Longrightarrow> gaveUp s = 0"
  using assms unfolding ceiling_inv_def by blast+

text \<open>A socket closes: the state before the close handler runs.\<close>

lemma closing_last:
  assumes inv: "ceiling_inv p s" and i: "i < length (sockets s)" "readyState (sockets s ! i) \<noteq> CLOSED"
    and s1: "sockets s1 = (sockets s)[i := (sockets s ! i)\<lparr>readyState := CLOSED\<rparr>]"
      "socketRef s1 = socketRef s" "reconnectCountRef s1 = reconnectCountRef s"
      "timers s1 = timers s" "gaveUp s1 = gaveUp s" "debugEnabled s1 = debugEnabled s"
  shows "ceiling_inv p (ws_onclose0 (sock_env i s) s1)"
proof -
  note D = ceiling_invD[OF inv]
  from D(8)[OF i] have ref: "socketRef s = Some i" .
  from D(9)[OF i] have t: "timers s = []" .
  from i have ne0: "sockets s \<noteq> []" by auto
  from D(1)[OF i(1)] have e: "sock_env i s = p" by (simp add: sock_env_def)
  from D(11)[OF ne0] D(12)[OF ne0] have en: "enabled p" "url_ok p" .
  have closed: "readyState (sockets s1 ! j) = CLOSED" if j: "j < length (sockets s)" for j
  proof (cases "j = i")
    case True
    with i s1 show ?thesis by simp
  next
    case False
    have "readyState (sockets s ! j) = CLOSED"
    proof (rule ccontr)
      assume "readyState (sockets s ! j) \<noteq> CLOSED"
      from D(8)[OF j this] ref False show False by simp
    qed
    with False j s1 show ?thesis by simp
  qed
  have envs: "env (sockets s1 ! j) = p" if j: "j < length (sockets s)" for j
    using D(1)[OF j] D(1)[OF i(1)] j i(1) s1(1) by (cases "j = i") simp_all
  from D(6) D(7) t have cnt: "reconnectCountRef s \<le> reconnectAttempts p"
    "length (sockets s) \<le> reconnectCountRef s + 1"
    by simp_all
  have len: "length (sockets s1) = length (sockets s)" using s1(1) by simp
  have ne: "sockets s1 \<noteq> []" using len i by auto
  let ?s' = "ws_onclose0 p s1"
  have base: "\<forall>j < length (sockets s). env (sockets s1 ! j) = p \<and> readyState (sockets s1 ! j) \<noteq> OPEN"
    "\<forall>j < length (sockets s). readyState (sockets s1 ! j) = CLOSED"
    using closed envs by simp_all
  show ?thesis
  proof (cases "reconnectCountRef s < reconnectAttempts p")
    case True
    then have tm: "timers ?s' = [\<lparr>t_id = nextTimer s1, t_delay = reconnectInterval p, t_env = p\<rparr>]"
      "gaveUp ?s' = gaveUp s"
      using en t s1 by (simp_all add: onclose0_proj)
    show ?thesis
      unfolding e ceiling_inv_def all_closed_def tm onclose0_proj(1-4,6) s1(2-6) len
      using base cnt ref i(1) en ne True D(17) by simp
  next
    case False
    then have tm: "timers ?s' = []"
      "gaveUp ?s' = (if debugEnabled s then gaveUp s + 1 else gaveUp s)"
      using en t s1 by (simp_all add: onclose0_proj)
    show ?thesis
      unfolding e ceiling_inv_def all_closed_def tm onclose0_proj(1-4,6) s1(2-6) len
      using base cnt ref i(1) en ne False D(17) by simp
  qed
qed

text \<open>The reconnection timer runs out.\<close>

lemma timer_fires:
  assumes inv: "ceiling_inv p s" and f: "filter (\<lambda>t. t_id t = k) (timers s) = t # ts"
  shows "ceiling_inv p (reconnect0 (t_env t) (clear_timeout k s))"
proof -
  note D = ceiling_invD[OF inv]
  from f have "t \<in> set (filter (\<lambda>t. t_id t = k) (timers s))" by simp
  then have tin: "t \<in> set (timers s)" and tk: "t_id t = k" by simp_all
  from tin D(5) have tm: "timers s = [t]"
    by (cases "timers s") (auto simp add: Suc_le_eq)
  from D(3)[OF tin] have te: "t_env t = p" .
  from tm D(13) have ne: "sockets s \<noteq> []" by simp
  from D(11)[OF ne] D(12)[OF ne] have en: "enabled p" "url_ok p" .
  have closed: "readyState (sockets s ! j) = CLOSED" if j: "j < length (sockets s)" for j
  proof (rule ccontr)
    assume "readyState (sockets s ! j) \<noteq> CLOSED"
    from D(9)[OF j this] tm show False by simp
  qed
  then have ac: "all_closed s" by (simp add: all_closed_def)
  with D(10) have nc: "\<not> isConnectingRef s" by blast
  have nopen: "\<not> ref_open (clear_timeout k s\<lparr>reconnectCountRef := reconnectCountRef s + 1\<rparr>)"
    using closed by (auto simp add: ref_open_def clear_timeout_def split: option.splits)
  let ?s0 = "clear_timeout k s\<lparr>reconnectCountRef := reconnectCountRef s + 1\<rparr>"
  have cc: "sockets (close_current ?s0) = sockets s" "timers (close_current ?s0) = []"
    "reconnectCountRef (close_current ?s0) = reconnectCountRef s + 1"
    "gaveUp (close_current ?s0) = gaveUp s"
    "debugEnabled (close_current ?s0) = debugEnabled s"
    using closed D(16) tm tk
    by (auto simp add: close_current_def ws_close_def clear_timeout_def split: option.splits)
  let ?s' = "reconnect0 (t_env t) (clear_timeout k s)"
  have r: "?s' = new_WebSocket p
             ((close_current ?s0)\<lparr>isConnectingRef := True, connectionStatus := St_connecting\<rparr>)"
    using en nc nopen te by (simp add: reconnect0_def connect0_def clear_timeout_def Let_def)
  have pr: "sockets ?s' = sockets s @ [\<lparr>readyState = CONNECTING, env = p, sent = []\<rparr>]"
    "socketRef ?s' = Some (length (sockets s))" "timers ?s' = []"
    "reconnectCountRef ?s' = reconnectCountRef s + 1" "isConnectingRef ?s'"
    "gaveUp ?s' = gaveUp s" "debugEnabled ?s' = debugEnabled s"
    unfolding r using cc by (simp_all add: new_WebSocket_def)
  from D(6) tm have c4: "reconnectCountRef s + 1 \<le> reconnectAttempts p" by simp
  have c1: "\<forall>i < length (sockets s) + 1.
      env ((sockets s @ [\<lparr>readyState = CONNECTING, env = p, sent = []\<rparr>]) ! i) = p \<and>
      readyState ((sockets s @ [\<lparr>readyState = CONNECTING, env = p, sent = []\<rparr>]) ! i) \<noteq> OPEN"
    using D(1) D(2) by (auto simp add: nth_append)
  have c6: "\<forall>i < length (sockets s) + 1.
      readyState ((sockets s @ [\<lparr>readyState = CONNECTING, env = p, sent = []\<rparr>]) ! i) \<noteq> CLOSED
        \<longrightarrow> i = length (sockets s)"
    using closed by (auto simp add: nth_append)
  have c7: "\<not> (\<forall>i < length (sockets s) + 1.
      readyState ((sockets s @ [\<lparr>readyState = CONNECTING, env = p, sent = []\<rparr>]) ! i) = CLOSED)"
    by (auto intro: exI[of _ "length (sockets s)"])
  show ?thesis
    unfolding ceiling_inv_def all_closed_def pr
    using c1 c4 c6 c7 D(7) D(17) en by (simp del: nth_append_length) blast
qed

lemma ceiling_inv_cur: "ceiling_inv p (s\<lparr>cur := q\<rparr>) = ceiling_inv p s"
  by (simp add: ceiling_inv_def all_closed_def)

lemma ceiling_inv_send: assumes "ceiling_inv p s" shows "sendMessage m s = s"
proof -
  note D = ceiling_invD[OF assms]
  have "\<not> ref_open s"
    using D(2) by (auto simp add: ref_open_def split: option.splits)
  then show ?thesis by (simp add: sendMessage_def split: option.splits)
qed

lemma ceiling_inv_step0:
  assumes inv: "ceiling_inv p s" and st: "step0 ev s = Some s'" and fl: "failing ev"
  shows "ceiling_inv p s'"
proof (cases ev)
  case (Render q)
  with st have "s' = s\<lparr>cur := q\<rparr>" by (simp split: if_splits)
  with inv show ?thesis by (simp add: ceiling_inv_cur)
next
  case Unmount
  with fl show ?thesis by (simp add: failing_def)
next
  case (Sock_open i)
  with fl show ?thesis by (simp add: failing_def)
next
  case (Sock_message i d)
  with st have "i < length (sockets s)" "readyState (sockets s ! i) = OPEN"
    by (simp_all add: sock_is_def split: if_splits)
  with ceiling_invD(2)[OF inv] show ?thesis by blast
next
  case (Sock_fail i)
  with st have i: "i < length (sockets s)" "readyState (sockets s ! i) \<noteq> CLOSED"
    and s': "s' = ws_onclose0 (sock_env i s) (ws_onerror0 (set_ready i CLOSED s))"
    by (simp_all add: sock_is_def split: if_splits)
  show ?thesis
    unfolding s' by (rule closing_last[OF inv i]) (simp_all add: onerror0_proj set_ready_proj)
next
  case (Sock_close i)
  with st have i: "i < length (sockets s)" "readyState (sockets s ! i) \<noteq> CLOSED"
    and s': "s' = ws_onclose0 (sock_env i s) (set_ready i CLOSED s)"
    by (simp_all add: sock_is_def split: if_splits)
  show ?thesis
    unfolding s' by (rule closing_last[OF inv i]) (simp_all add: set_ready_proj)
next
  case (Timer_fire k)
  show ?thesis
  proof (cases "filter (\<lambda>t. t_id t = k) (timers s)")
    case Nil
    with st Timer_fire show ?thesis by simp
  next
    case (Cons t ts)
    with st Timer_fire have "s' = reconnect0 (t_env t) (clear_timeout k s)" by simp
    with timer_fires[OF inv Cons] show ?thesis by simp
  qed
next
  case (Send_message m)
  with st have "s' = sendMessage m s" by (simp split: if_splits)
  with inv show ?thesis by (simp add: ceiling_inv_send)
qed

lemma ceiling_inv_run0:
  "ceiling_inv p s \<Longrightarrow> run0 evs s = Some s' \<Longrightarrow> \<forall>ev \<in> set evs. failing ev \<Longrightarrow>
     ceiling_inv p s'"
proof (induction evs arbitrary: s)
  case Nil
  then show ?case by simp
next
  case (Cons ev evs)
  from Cons.prems(2) obtain s1 where s1: "step0 ev s = Some s1" and r: "run0 evs s1 = Some s'"
    by (auto split: option.splits)
  from Cons.prems(3) have f: "failing ev" "\<forall>ev \<in> set evs. failing ev" by simp_all
  from Cons.IH[OF ceiling_inv_step0[OF Cons.prems(1) s1 f(1)] r f(2)] show ?case .
qed

text \<open>Once every socket is closed and no timer is pending, nothing reconnects.\<close>

lemma quiescent_stays:
  assumes inv: "ceiling_inv p s" and q: "timers s = []" "all_closed s"
    and st: "step0 ev s = Some s'" and fl: "failing ev"
  shows "sockets s' = sockets s \<and> timers s' = []"
proof (cases ev)
  case (Render q)
  with st q show ?thesis by (auto split: if_splits)
next
  case (Send_message m)
  with st have "s' = sendMessage m s" by (simp split: if_splits)
  with ceiling_inv_send[OF inv] q show ?thesis by simp
next
  case (Timer_fire k)
  with st q show ?thesis by simp
next
  case (Sock_fail i)
  with st q show ?thesis by (auto simp add: sock_is_def all_closed_def split: if_splits)
next
  case (Sock_close i)
  with st q show ?thesis by (auto simp add: sock_is_def all_closed_def split: if_splits)
next
  case (Sock_message i d)
  with st q show ?thesis by (auto simp add: sock_is_def all_closed_def split: if_splits)
qed (use fl in \<open>simp_all add: failing_def\<close>)

lemma debug_const_step0: "step0 ev s = Some s' \<Longrightarrow> debugEnabled s' = debugEnabled s"
proof (cases ev)
  case (Render q)
  assume "step0 ev s = Some s'"
  with Render show ?thesis by (auto split: if_splits)
next
  case Unmount
  assume "step0 ev s = Some s'"
  with Unmount show ?thesis
    by (auto simp add: effect_cleanup_def close_current_def ws_close_def clear_timeout_def Let_def
        split: if_splits option.splits)
next
  case (Sock_open i)
  assume "step0 ev s = Some s'"
  with Sock_open show ?thesis
    by (auto simp add: ws_onopen0_def set_ready_def sendRegistration_def ws_send_def Let_def
        split: if_splits option.splits)
next
  case (Sock_message i d)
  assume "step0 ev s = Some s'"
  with Sock_message show ?thesis by (auto simp add: ws_onmessage0_def split: if_splits)
next
  case (Sock_fail i)
  assume "step0 ev s = Some s'"
  with Sock_fail show ?thesis
    by (auto simp add: onclose0_proj onerror0_proj set_ready_proj split: if_splits)
next
  case (Sock_close i)
  assume "step0 ev s = Some s'"
  with Sock_close show ?thesis
    by (auto simp add: onclose0_proj set_ready_proj split: if_splits)
next
  case (Timer_fire k)
  assume "step0 ev s = Some s'"
  with Timer_fire show ?thesis
    by (auto simp add: reconnect0_def connect0_def close_current_def ws_close_def
        new_WebSocket_def clear_timeout_def Let_def split: list.splits option.splits if_splits)
next
  case (Send_message m)
  assume "step0 ev s = Some s'"
  with Send_message show ?thesis
    by (auto simp add: sendMessage_def ws_send_def split: if_splits option.splits)
qed

lemma debug_const_run0: "run0 evs s = Some s' \<Longrightarrow> debugEnabled s' = debugEnabled s"
  by (induction evs arbitrary: s) (auto split: option.splits dest: debug_const_step0)

text \<open>
  C5 (as amended). In the variant with the ceiling, configured with \<open>reconnectAttempts\<close>
  = K and \<open>reconnectInterval\<close> = D, a run of failures after the mount makes at most
  K reconnection attempts (at most K + 1 sockets are built) and every pending timer
  has the delay D. Once every socket is closed with no timer pending, the counter
  stands at K and no further event of the run builds a socket or schedules a timer.
  The give-up warning goes through the debug utility: it has been printed exactly
  when debug output is switched on (\<open>d\<close>); with the default setting nothing is
  surfaced.
\<close>

theorem retry_ceiling_respected:
  assumes "run0 evs ((mount0 st p)\<lparr>debugEnabled := d\<rparr>) = Some s"
    and "\<forall>ev \<in> set evs. failing ev"
  shows "reconnectCountRef s \<le> reconnectAttempts p \<and>
         length (sockets s) \<le> reconnectAttempts p + 1 \<and>
         (\<forall>t \<in> set (timers s). t_delay t = reconnectInterval p) \<and>
         (sockets s \<noteq> [] \<and> timers s = [] \<and> all_closed s \<longrightarrow>
            (gaveUp s > 0) = d \<and> reconnectCountRef s = reconnectAttempts p \<and>
            (\<forall>ev s'. failing ev \<and> step0 ev s = Some s' \<longrightarrow>
               sockets s' = sockets s \<and> timers s' = []))"
proof -
  from ceiling_inv_run0[OF ceiling_inv_mount0 assms] have inv: "ceiling_inv p s" .
  note D = ceiling_invD[OF inv]
  from debug_const_run0[OF assms(1)] have dbg: "debugEnabled s = d" by simp
  from D(6) have a: "reconnectCountRef s \<le> reconnectAttempts p" by simp
  from D(7) a have b: "length (sockets s) \<le> reconnectAttempts p + 1" by simp
  from D(4) have c: "\<forall>t \<in> set (timers s). t_delay t = reconnectInterval p" by blast
  have g: "(gaveUp s > 0) = d" if "sockets s \<noteq> []" "timers s = []" "all_closed s"
  proof (cases d)
    case True
    with D(14)[OF that] dbg show ?thesis by simp
  next
    case False
    with D(17) dbg show ?thesis by simp
  qed
  have e: "sockets s \<noteq> [] \<and> timers s = [] \<and> all_closed s \<longrightarrow>
            (gaveUp s > 0) = d \<and> reconnectCountRef s = reconnectAttempts p \<and>
            (\<forall>ev s'. failing ev \<and> step0 ev s = Some s' \<longrightarrow>
               sockets s' = sockets s \<and> timers s' = [])"
    using g D(15) quiescent_stays[OF inv] by blast
  from a b c e show ?thesis by blast
qed

theorem retry_ceiling_respected_witness:
  "\<exists>s. run0 [Sock_fail 0, Timer_fire 0, Sock_fail 1, Timer_fire 1, Sock_fail 2]
          ((mount0 Map.empty (p_follower\<lparr>reconnectAttempts := 2\<rparr>))\<lparr>debugEnabled := True\<rparr>) = Some s \<and>
        (\<forall>ev \<in> set [Sock_fail 0, Timer_fire 0, Sock_fail 1, Timer_fire 1, Sock_fail 2]. failing ev) \<and>
        sockets s \<noteq> [] \<and> timers s = [] \<and> all_closed s \<and>
        length (sockets s) \<le> 3 \<and> gaveUp s > 0 \<and> reconnectCountRef s = 2"
proof -
  let ?evs = "[Sock_fail 0, Timer_fire 0, Sock_fail 1, Timer_fire 1, Sock_fail 2]"
  let ?p = "p_follower\<lparr>reconnectAttempts := 2\<rparr>"
  let ?m = "(mount0 Map.empty ?p)\<lparr>debugEnabled := True\<rparr>"
  have "run0 ?evs ?m \<noteq> None"
    by (simp add: wsw_eval)
  then obtain s where s: "run0 ?evs ?m = Some s" by blast
  have f: "\<forall>ev \<in> set ?evs. failing ev" by (simp add: failing_def)
  have "map_option (\<lambda>s. sockets s \<noteq> [] \<and> timers s = [] \<and>
           readyState (sockets s ! 0) = CLOSED \<and> readyState (sockets s ! 1) = CLOSED \<and>
           readyState (sockets s ! 2) = CLOSED \<and> length (sockets s) = 3)
          (run0 ?evs ?m) = Some True"
    by (simp add: wsw_eval)
  with s have q: "sockets s \<noteq> []" "timers s = []" "length (sockets s) = 3"
    "readyState (sockets s ! 0) = CLOSED" "readyState (sockets s ! 1) = CLOSED"
    "readyState (sockets s ! 2) = CLOSED"
    by simp_all
  have ac: "all_closed s"
    unfolding all_closed_def q(3)
  proof (intro allI impI)
    fix i :: nat assume "i < 3"
    then consider "i = 0" | "i = 1" | "i = 2" by linarith
    then show "readyState (sockets s ! i) = CLOSED" using q(4-6) by cases simp_all
  qed
  from retry_ceiling_respected[OF s f] q ac
  have "length (sockets s) \<le> 3" "gaveUp s > 0" "reconnectCountRef s = 2"
    by (simp_all add: p_follower_def)
  with s f q ac show ?thesis by blast
qed

text \<open>
  The claim C5 as stated fails twice. The tab-gated variant reads neither
  \<open>reconnectAttempts\<close> nor \<open>reconnectInterval\<close>: configured with a ceiling of 1 and a
  delay of 3000 it has made two reconnection attempts and has a third scheduled after
  1000. The variant with the ceiling, with debug output at its default, stops after its
  two attempts (three sockets, all closed, no timer) without any give-up signal.
\<close>

theorem fixed_retry_counterexample:
  "map_option observe
     (run [Render (p_leader\<lparr>reconnectAttempts := 1\<rparr>), Sock_fail 0, Timer_fire 0, Sock_fail 1,
           Timer_fire 1, Sock_fail 2]
        (mount Map.empty (p_follower\<lparr>reconnectAttempts := 1\<rparr>)))
     = Some (True, True, Closed, [1000], False, 3) \<and>
   map_option observe
     (run0 [Sock_fail 0, Timer_fire 0, Sock_fail 1, Timer_fire 1, Sock_fail 2]
        (mount0 Map.empty (p_leader\<lparr>reconnectAttempts := 2\<rparr>)))
     = Some (True, True, Closed, [], False, 3) \<and>
   map_option gaveUp
     (run0 [Sock_fail 0, Timer_fire 0, Sock_fail 1, Timer_fire 1, Sock_fail 2]
        (mount0 Map.empty (p_leader\<lparr>reconnectAttempts := 2\<rparr>)))
     = Some 0 \<and>
   map_option debugEnabled
     (run0 [Sock_fail 0, Timer_fire 0, Sock_fail 1, Timer_fire 1, Sock_fail 2]
        (mount0 Map.empty (p_leader\<lparr>reconnectAttempts := 2\<rparr>)))
     = Some False"
  by (simp add: wsw_eval)

subsection \<open>Frame dispatch\<close>



text \<open>
  The storage listener catches what its parse throws: an unparseable new value is
  logged and dropped, and nothing but the error log changes.
\<close>

lemma storage_event_parse_error_logged:
  "handleStorageEvent now True (Some Raw_Garbage) p =
     p\<lparr>errorLog := errorLog p @ [''Error handling storage event:'']\<rparr>"
  by (simp add: handleStorageEvent_def)

text \<open>
  C8, on two inputs. A frame that is not JSON arrives on the open connection:
  \<^verbatim>\<open>ws.onmessage\<close> throws the \<^verbatim>\<open>SyntaxError\<close>, which nothing catches and nothing
  logs (the state after the event is the state before it). A tab starting in fallback
  mode finds a fresh record of another tab and schedules its confirmation; when the
  callback runs the record no longer parses, and the exception escapes the callback,
  which the \<^verbatim>\<open>try\<close> around \<^verbatim>\<open>setTimeout\<close> no longer covers: the tab neither
  activates nor yields.
\<close>

theorem parse_error_escapes:
  "ws_onmessage Not_Json (first_render Map.empty p_leader) = Inl SyntaxError \<and>
   map_option observe
     (run [Render p_leader, Sock_open 0, Sock_message 0 Not_Json] (mount Map.empty p_follower))
     = map_option observe (run [Render p_leader, Sock_open 0] (mount Map.empty p_follower)) \<and>
   map_option alerts
     (run [Render p_leader, Sock_open 0, Sock_message 0 Not_Json] (mount Map.empty p_follower))
     = Some [] \<and>
   confirmTimer
     (initializeLocalStorage 1000
        ((new_fields (Tab_Id 1000 ''x'') (Some (Raw_Record (Some (Tab_Id 900 ''w'')) (Some 900))))
           \<lparr>useLocalStorage := True\<rparr>)) \<and>
   confirm_timeout 1300
     ((initializeLocalStorage 1000
        ((new_fields (Tab_Id 1000 ''x'') (Some (Raw_Record (Some (Tab_Id 900 ''w'')) (Some 900))))
           \<lparr>useLocalStorage := True\<rparr>))
        \<lparr>localStorage := Some Raw_Garbage\<rparr>) = Inl SyntaxError"
  by (simp add: wsw_eval ws_onmessage_def initializeLocalStorage_def confirm_timeout_def
      new_fields_def fresh_def TAB_TIMEOUT_def)

text \<open>
  C10. The error handler of the socket sets the maintenance flag, on screen and in the
  store, to true, and the open handler resets both to false; neither looks at a frame.
\<close>

theorem maintenance_flag_follows_transport:
  "showMaintenanceScreen (ws_onerror s) = JBool True \<and>
   secureStore (ws_onerror s) ''maintenance'' = Some (Maintenance_record (JBool True)) \<and>
   showMaintenanceScreen (ws_onopen e s) = JBool False \<and>
   secureStore (ws_onopen e s) ''maintenance'' = Some (Maintenance_record (JBool False))"
  by (simp add: ws_onerror_def ws_onopen_def onMaintenanceUpdate_def sendRegistration_def
      ws_send_def Let_def split: option.splits)

subsection \<open>Leadership loss and stop\<close>

























text \<open>
  C6, on the run: the connection fails, which schedules a reconnection; then the
  component is unmounted (or the tab loses leadership). The cleanup finds
  \<^verbatim>\<open>reconnectTimeoutRef\<close> empty, the timer stays pending, and when it runs out a
  new socket is built.
\<close>

theorem timer_survives_stop:
  "map_option observe (run [Render p_leader, Sock_fail 0, Unmount] (mount Map.empty p_follower))
     = Some (False, True, Closed, [1000], False, 1) \<and>
   map_option observe
     (run [Render p_leader, Sock_fail 0, Unmount, Timer_fire 0] (mount Map.empty p_follower))
     = Some (False, True, Connecting, [], False, 2) \<and>
   map_option observe
     (run [Render p_leader, Sock_fail 0, Render p_follower] (mount Map.empty p_follower))
     = Some (True, False, Closed, [1000], False, 1) \<and>
   map_option observe
     (run [Render p_leader, Sock_fail 0, Render p_follower, Timer_fire 0] (mount Map.empty p_follower))
     = Some (True, False, Connecting, [], False, 2)"
  by (simp add: wsw_eval)

text \<open>Running the cleanup a second time changes nothing.\<close>

lemma cleanup_idem: "effect_cleanup (effect_cleanup s) = effect_cleanup s"
  by (auto simp add: effect_cleanup_def close_current_def clear_timeout_def ws_close_def Let_def
      split: option.splits)

section \<open>Properties of the secure storage\<close>

text \<open>
  C9. With a library whose decryption inverts its encryption under the same key, whose
  ciphertext is never empty and whose JSON codec reads back the strings it writes, and
  with the browser fingerprint unchanged between the two calls: \<^verbatim>\<open>setItem\<close> of a
  string followed by \<^verbatim>\<open>getItem\<close> of the same key returns that string. Whatever
  the library does, a stored entry on which \<^verbatim>\<open>decryptData\<close> throws makes
  \<^verbatim>\<open>getItem\<close> return null and remove the entry, without raising.
\<close>

theorem secure_storage_roundtrip:
  assumes "\<forall>t k. aes_decrypt pf (aes_encrypt pf t k) k = Some t"
    and "\<forall>t k. aes_encrypt pf t k \<noteq> []"
    and "\<forall>v. \<exists>t. json_stringify pf (JStr v) = Some t \<and> t \<noteq> [] \<and> json_parse pf t = Some (JStr v)"
  shows "(\<exists>st'. setItem pf fp key v st = Inr st' \<and> getItem pf fp key st' = (JStr v, st')) \<and>
         (\<forall>c err. st key = Some c \<and> decryptData pf fp (Some c) None = Inl err \<longrightarrow>
            getItem pf fp key st = (JNull, st(key := None)))"
proof
  from assms(3) obtain t where t: "json_stringify pf (JStr v) = Some t" "t \<noteq> []"
    "json_parse pf t = Some (JStr v)" by blast
  let ?k = "key_or_session pf fp None"
  let ?c = "aes_encrypt pf t ?k"
  from assms(2) have c: "?c \<noteq> []" by simp
  from assms(1) have d: "aes_decrypt pf ?c ?k = Some t" by simp
  have s: "setItem pf fp key v st = Inr (st(key \<mapsto> ?c))"
    using t(1) c by (simp add: setItem_def encryptData_def)
  have g: "getItem pf fp key (st(key \<mapsto> ?c)) = (JStr v, st(key \<mapsto> ?c))"
    using c d t(2,3) by (simp add: getItem_def decryptData_def)
  from s g show "\<exists>st'. setItem pf fp key v st = Inr st' \<and> getItem pf fp key st' = (JStr v, st')"
    by blast
next
  show "\<forall>c err. st key = Some c \<and> decryptData pf fp (Some c) None = Inl err \<longrightarrow>
          getItem pf fp key st = (JNull, st(key := None))"
    by (auto simp add: getItem_def decryptData_def)
qed

theorem secure_storage_roundtrip_witness:
  "(\<forall>t k. aes_decrypt toy_platform (aes_encrypt toy_platform t k) k = Some t) \<and>
   (\<forall>t k. aes_encrypt toy_platform t k \<noteq> []) \<and>
   (\<forall>v. \<exists>t. json_stringify toy_platform (JStr v) = Some t \<and> t \<noteq> [] \<and>
      json_parse toy_platform t = Some (JStr v)) \<and>
   (\<exists>st'. setItem toy_platform ''fp'' ''accountBlocked'' ''blocked'' Map.empty = Inr st' \<and>
      getItem toy_platform ''fp'' ''accountBlocked'' st' = (JStr ''blocked'', st')) \<and>
   getItem toy_platform ''fp'' ''accountBlocked'' [''accountBlocked'' \<mapsto> ''garbage'']
     = (JNull, [''accountBlocked'' \<mapsto> ''garbage''](''accountBlocked'' := None))"
proof -
  have h1: "\<forall>t k. aes_decrypt toy_platform (aes_encrypt toy_platform t k) k = Some t"
    by (simp add: toy_platform_def)
  have h2: "\<forall>t k. aes_encrypt toy_platform t k \<noteq> []"
    by (simp add: toy_platform_def)
  have h3: "\<forall>v. \<exists>t. json_stringify toy_platform (JStr v) = Some t \<and> t \<noteq> [] \<and>
      json_parse toy_platform t = Some (JStr v)"
    by (simp add: toy_platform_def)
  have g: "decryptData toy_platform ''fp'' (Some ''garbage'') None = Inl Failed_to_decrypt"
    by (simp add: decryptData_def toy_platform_def)
  from secure_storage_roundtrip[OF h1 h2 h3, of "''fp''" "''accountBlocked''" "''blocked''" Map.empty]
  have a: "\<exists>st'. setItem toy_platform ''fp'' ''accountBlocked'' ''blocked'' Map.empty = Inr st' \<and>
      getItem toy_platform ''fp'' ''accountBlocked'' st' = (JStr ''blocked'', st')"
    by blast
  from secure_storage_roundtrip[OF h1 h2 h3, of "''fp''" "''accountBlocked''" "''blocked''"
      "[''accountBlocked'' \<mapsto> ''garbage'']"] g
  have b: "getItem toy_platform ''fp'' ''accountBlocked'' [''accountBlocked'' \<mapsto> ''garbage'']
     = (JNull, [''accountBlocked'' \<mapsto> ''garbage''](''accountBlocked'' := None))"
    by simp
  from h1 h2 h3 a b show ?thesis by blast
qed

end
